theory Spec2Isabelle
  imports Complex_Main "HOL-Library.Word" "HOL-Library.AList" "HOL-Library.Char_ord"
    "HOL-Library.List_Lexorder" "HOL-Library.Multiset"
begin

section \<open>Common ground: exceptions, paths, files\<close>

text \<open>
  Every Python exception the modelled code can raise is a value of \<open>error\<close>; a function
  that can raise returns \<open>error + 'a\<close> with \<open>Inl\<close> for the exception. The argument of a
  constructor is the exception's message (or the missing attribute's name).
\<close>

datatype error =
    AttributeError string
  | TypeError string
  | ValueError string
  | KeyError string
  | IndexError
  | FileNotFoundError
  | JSONDecodeError
  | RuntimeError string
  | ZeroDivisionError

text \<open>Decimal formatting of integers, as an f-string or \<open>str\<close> prints them.\<close>

definition digit_char :: "nat \<Rightarrow> char" where
  "digit_char d = char_of (48 + d)"

fun show_nat :: "nat \<Rightarrow> string" where
  "show_nat n = (if n < 10 then [digit_char n] else show_nat (n div 10) @ [digit_char (n mod 10)])"

declare show_nat.simps [simp del]

definition show_int :: "int \<Rightarrow> string" where
  "show_int i = (if i < 0 then CHR ''-'' # show_nat (nat (- i)) else show_nat (nat i))"

text \<open>
  A path is a directory and a file name (\<open>base_path / name\<close>); the file system maps the
  paths of regular files to their bytes, in directory order. Bytes are \<open>char\<close>s.
\<close>

type_synonym path = "string \<times> string"
type_synonym filesystem = "(path \<times> string) list"

section \<open>storage.py: SegmentFile\<close>

text \<open>
  \<open>HEADER_FORMAT = "=Q"\<close>: eight bytes in native order, the low byte first on the
  usual machines. \<open>seg_size\<close> is the attribute
  \<open>_size\<close>; \<open>closed\<close> records that \<open>close()\<close> has run. The mapping is shared with
  the file, so the bytes of the mapping are the bytes of the file in the file system.
\<close>

fun le_bytes :: "nat \<Rightarrow> nat \<Rightarrow> string" where
  "le_bytes 0 n = []"
| "le_bytes (Suc k) n = char_of n # le_bytes k (n div 256)"

definition struct_pack_Q :: "nat \<Rightarrow> string" where
  "struct_pack_Q n = le_bytes 8 n"

definition HEADER_SIZE :: nat where
  "HEADER_SIZE = 8"

record SegmentFile =
  path :: path
  seg_size :: nat
  closed :: bool

text \<open>
  \<open>SegmentFile.__init__(path, create)\<close>. \<open>os.makedirs(os.path.dirname(path))\<close> raises
  FileNotFoundError for an empty directory name; mode \<open>w+b\<close> truncates or creates the
  file, mode \<open>r+b\<close> raises FileNotFoundError when there is none; when \<open>create\<close>, the
  packed header (the number 0) is written; the mapping covers the file as it then is
  (mapping an empty file is a ValueError), and \<open>_size\<close> is that length.
\<close>

definition SegmentFile_init :: "filesystem \<Rightarrow> path \<Rightarrow> bool \<Rightarrow> error + (filesystem \<times> SegmentFile)" where
  "SegmentFile_init fs p create =
     (if fst p = [] then Inl FileNotFoundError
      else if create then
        (let fs' = AList.update p (struct_pack_Q 0) fs;
             sz = length (struct_pack_Q 0)
         in Inr (fs', \<lparr>path = p, seg_size = sz, closed = False\<rparr>))
      else
        (case map_of fs p of
           None \<Rightarrow> Inl FileNotFoundError
         | Some content \<Rightarrow>
             if content = [] then Inl (ValueError ''cannot mmap an empty file'')
             else Inr (fs, \<lparr>path = p, seg_size = length content, closed = False\<rparr>)))"

text \<open>
  \<open>append(data)\<close>: the offset is \<open>_size\<close>; the mapping (and the file under it) is
  resized to \<open>_size + len(data)\<close>, zero-filled where it grows; the data are written at
  the offset; \<open>_size\<close> advances. A closed mapping raises ValueError.
\<close>

definition SegmentFile_append :: "filesystem \<Rightarrow> SegmentFile \<Rightarrow> string \<Rightarrow> error + (nat \<times> filesystem \<times> SegmentFile)" where
  "SegmentFile_append fs seg data =
     (if closed seg then Inl (ValueError ''mmap closed or invalid'')
      else case map_of fs (path seg) of
        None \<Rightarrow> Inl FileNotFoundError
      | Some content \<Rightarrow>
          (let offset = seg_size seg;
               resized = take offset (content @ replicate (offset - length content) (CHR 0x00));
               fs' = AList.update (path seg) (resized @ data) fs
           in Inr (offset, fs', seg\<lparr>seg_size := offset + length data\<rparr>)))"

text \<open>
  A Python slice \<open>xs[i:j]\<close>: a negative bound counts from the end, and both bounds are
  clipped to the sequence.
\<close>

definition slice_bound :: "nat \<Rightarrow> int \<Rightarrow> nat" where
  "slice_bound n i = (if i < 0 then nat (max 0 (int n + i)) else min (nat i) n)"

definition py_slice :: "'a list \<Rightarrow> int \<Rightarrow> int \<Rightarrow> 'a list" where
  "py_slice xs i j = take (slice_bound (length xs) j - slice_bound (length xs) i)
                       (drop (slice_bound (length xs) i) xs)"

text \<open>
  \<open>read(offset, size)\<close>: empty at or beyond \<open>_size\<close>, else the slice
  \<open>mmap[offset : min(offset + size, _size)]\<close> of the mapping, which is as long as the
  file was when this object last mapped or resized it (\<open>_size\<close>).
\<close>

definition SegmentFile_read :: "filesystem \<Rightarrow> SegmentFile \<Rightarrow> int \<Rightarrow> int \<Rightarrow> error + string" where
  "SegmentFile_read fs seg offset sz =
     (if offset \<ge> int (seg_size seg) then Inr []
      else if closed seg then Inl (ValueError ''mmap closed or invalid'')
      else case map_of fs (path seg) of
        None \<Rightarrow> Inl FileNotFoundError
      | Some content \<Rightarrow>
          Inr (py_slice (take (seg_size seg) content) offset (min (offset + sz) (int (seg_size seg)))))"

definition SegmentFile_close :: "SegmentFile \<Rightarrow> SegmentFile" where
  "SegmentFile_close seg = seg\<lparr>closed := True\<rparr>"

text \<open>
  The first append on a segment that was just created: \<open>SegmentFile(path,
  create=True).append(data)\<close>, giving the offset it returns.
\<close>

definition first_append_offset :: "filesystem \<Rightarrow> path \<Rightarrow> string \<Rightarrow> error + nat" where
  "first_append_offset fs p data =
     (case SegmentFile_init fs p True of
        Inl e \<Rightarrow> Inl e
      | Inr (fs', seg) \<Rightarrow>
          (case SegmentFile_append fs' seg data of
             Inl e \<Rightarrow> Inl e
           | Inr (offset, fs'', seg') \<Rightarrow> Inr offset))"

section \<open>The json module, as far as lsm.py uses it\<close>

text \<open>
  The values an LSM tree stores are what \<open>json.dumps\<close> can write: \<open>None\<close>, booleans,
  integers, floats, strings, lists and dictionaries with string keys. Python's \<open>None\<close> is
  \<open>JNull\<close>. A float is its 64 bits; its text and its value are the library's business
  and enter as parameters: \<open>float_repr\<close> is the text \<open>json.dumps\<close> writes for a float
  (\<open>float.__repr__\<close>, or \<open>NaN\<close>, \<open>Infinity\<close>, \<open>-Infinity\<close>: ASCII, without a line
  break), \<open>parse_float\<close> is \<open>float(text)\<close>. A dictionary is the list of its items in
  insertion order; \<open>d[k] = v\<close> is \<open>AList.update k v d\<close>. Strings are lists of \<open>char\<close>,
  the code points below 256.
\<close>

type_synonym float64 = "64 word"

datatype json =
    JNull
  | JBool bool
  | JInt int
  | JFloat float64
  | JStr string
  | JList "json list"
  | JObj "(string \<times> json) list"

type_synonym dict = "(string \<times> json) list"

definition dquote :: char where "dquote = CHR 0x22"
definition backslash :: char where "backslash = CHR 0x5C"
definition newline :: char where "newline = CHR 0x0A"

text \<open>
  \<open>json.dumps\<close> with its defaults (\<open>ensure_ascii=True\<close>, separators \<open>", "\<close> and
  \<open>": "\<close>): inside a string, the quote, the backslash and everything outside the
  printable ASCII range are escaped, so the output is ASCII and holds no line break.
\<close>

definition hex_digit :: "nat \<Rightarrow> char" where
  "hex_digit d = (if d < 10 then char_of (48 + d) else char_of (87 + d))"

definition escape_char :: "char \<Rightarrow> string" where
  "escape_char c =
     (if c = dquote then [backslash, dquote]
      else if c = backslash then [backslash, backslash]
      else if c = newline then [backslash, CHR ''n'']
      else if c = CHR 0x0D then [backslash, CHR ''r'']
      else if c = CHR 0x09 then [backslash, CHR ''t'']
      else if c = CHR 0x08 then [backslash, CHR ''b'']
      else if c = CHR 0x0C then [backslash, CHR ''f'']
      else if 32 \<le> (of_char c :: nat) \<and> (of_char c :: nat) \<le> 126 then [c]
      else [backslash, CHR ''u'', CHR ''0'', CHR ''0'',
            hex_digit ((of_char c :: nat) div 16), hex_digit ((of_char c :: nat) mod 16)])"

definition encode_basestring_ascii :: "string \<Rightarrow> string" where
  "encode_basestring_ascii s = dquote # concat (map escape_char s) @ [dquote]"

fun join :: "string \<Rightarrow> string list \<Rightarrow> string" where
  "join sep [] = []"
| "join sep [x] = x"
| "join sep (x # y # zs) = x @ sep @ join sep (y # zs)"

fun json_dumps :: "(float64 \<Rightarrow> string) \<Rightarrow> json \<Rightarrow> string"
  and dumps_items :: "(float64 \<Rightarrow> string) \<Rightarrow> json list \<Rightarrow> string list"
  and dumps_members :: "(float64 \<Rightarrow> string) \<Rightarrow> (string \<times> json) list \<Rightarrow> string list"
  and dumps_member :: "(float64 \<Rightarrow> string) \<Rightarrow> string \<times> json \<Rightarrow> string"
where
  "json_dumps float_repr JNull = ''null''"
| "json_dumps float_repr (JBool b) = (if b then ''true'' else ''false'')"
| "json_dumps float_repr (JInt i) = show_int i"
| "json_dumps float_repr (JFloat x) = float_repr x"
| "json_dumps float_repr (JStr s) = encode_basestring_ascii s"
| "json_dumps float_repr (JList xs) = ''['' @ join '', '' (dumps_items float_repr xs) @ '']''"
| "json_dumps float_repr (JObj kvs) = ''{'' @ join '', '' (dumps_members float_repr kvs) @ ''}''"
| "dumps_items float_repr [] = []"
| "dumps_items float_repr (x # xs) = json_dumps float_repr x # dumps_items float_repr xs"
| "dumps_members float_repr [] = []"
| "dumps_members float_repr (kv # kvs) = dumps_member float_repr kv # dumps_members float_repr kvs"
| "dumps_member float_repr (k, v) = encode_basestring_ascii k @ '': '' @ json_dumps float_repr v"

text \<open>
  \<open>json.loads\<close>: blanks are skipped around values; a string is scanned in strict mode
  (a raw control character is an error); a number is matched by
  \<open>(-?(?:0|[1-9]\d*))(\.\d+)?([eE][-+]?\d+)?\<close> and is an integer when it has neither
  fraction nor exponent, else the float of the matched text; \<open>NaN\<close>, \<open>Infinity\<close> and
  \<open>-Infinity\<close> are floats too; in an object a repeated key keeps its first place and its
  last value, as \<open>dict\<close> does. A \<open>u\<close> escape with the hex digits \<open>00XX\<close> is the
  character \<open>XX\<close>; the writer above produces no other \<open>u\<close> escape, and one beyond the
  characters of the model is not read. The parser's recursion is bounded by the length of the text.
\<close>

definition is_ws :: "char \<Rightarrow> bool" where
  "is_ws c = (c = CHR '' '' \<or> c = CHR 0x09 \<or> c = newline \<or> c = CHR 0x0D)"

definition skip_ws :: "string \<Rightarrow> string" where
  "skip_ws s = dropWhile is_ws s"

definition is_digit :: "char \<Rightarrow> bool" where
  "is_digit c = (48 \<le> (of_char c :: nat) \<and> (of_char c :: nat) \<le> 57)"

definition digits_val :: "string \<Rightarrow> nat" where
  "digits_val ds = foldl (\<lambda>a c. 10 * a + ((of_char c :: nat) - 48)) 0 ds"

definition hex_val :: "char \<Rightarrow> nat option" where
  "hex_val c =
     (let n = (of_char c :: nat) in
      if 48 \<le> n \<and> n \<le> 57 then Some (n - 48)
      else if 97 \<le> n \<and> n \<le> 102 then Some (n - 87)
      else if 65 \<le> n \<and> n \<le> 70 then Some (n - 55)
      else None)"

definition unescape :: "char \<Rightarrow> char option" where
  "unescape e =
     (if e = dquote then Some dquote
      else if e = backslash then Some backslash
      else if e = CHR ''/'' then Some (CHR ''/'')
      else if e = CHR ''b'' then Some (CHR 0x08)
      else if e = CHR ''f'' then Some (CHR 0x0C)
      else if e = CHR ''n'' then Some newline
      else if e = CHR ''r'' then Some (CHR 0x0D)
      else if e = CHR ''t'' then Some (CHR 0x09)
      else None)"

definition decode_u4 :: "string \<Rightarrow> char option" where
  "decode_u4 h =
     (case map hex_val h of
        [Some a, Some b, Some c, Some d] \<Rightarrow>
          (if a = 0 \<and> b = 0 then Some (char_of (16 * c + d)) else None)
      | _ \<Rightarrow> None)"

fun scanstring :: "string \<Rightarrow> (string \<times> string) option" where
  "scanstring [] = None"
| "scanstring (c # cs) =
     (if c = dquote then Some ([], cs)
      else if c = backslash then
        (case cs of
           [] \<Rightarrow> None
         | e # cs' \<Rightarrow>
             if e = CHR ''u'' then
               (case decode_u4 (take 4 cs') of
                  None \<Rightarrow> None
                | Some ch \<Rightarrow>
                    (case scanstring (drop 4 cs') of
                       None \<Rightarrow> None
                     | Some (s, r) \<Rightarrow> Some (ch # s, r)))
             else
               (case unescape e of
                  None \<Rightarrow> None
                | Some ch \<Rightarrow>
                    (case scanstring cs' of
                       None \<Rightarrow> None
                     | Some (s, r) \<Rightarrow> Some (ch # s, r))))
      else if (of_char c :: nat) < 32 then None
      else
        (case scanstring cs of
           None \<Rightarrow> None
         | Some (s, r) \<Rightarrow> Some (c # s, r)))"

definition scan_number :: "(string \<Rightarrow> float64) \<Rightarrow> string \<Rightarrow> (json \<times> string) option" where
  "scan_number parse_float s =
     (let neg = (s \<noteq> [] \<and> hd s = CHR ''-'');
          s1 = (if neg then tl s else s);
          ds = takeWhile is_digit s1;
          r = dropWhile is_digit s1;
          ds' = (if ds \<noteq> [] \<and> hd ds = CHR ''0'' then [CHR ''0''] else ds);
          r' = (if ds \<noteq> [] \<and> hd ds = CHR ''0'' then tl ds @ r else r);
          integer = (if neg then CHR ''-'' # ds' else ds');
          frac = (if r' \<noteq> [] \<and> hd r' = CHR ''.'' \<and> takeWhile is_digit (tl r') \<noteq> []
                  then CHR ''.'' # takeWhile is_digit (tl r') else []);
          r1 = drop (length frac) r';
          sgn = (if r1 \<noteq> [] \<and> tl r1 \<noteq> [] \<and> (hd (tl r1) = CHR ''+'' \<or> hd (tl r1) = CHR ''-'')
                 then [hd (tl r1)] else []);
          exp_digits = takeWhile is_digit (drop (Suc (length sgn)) r1);
          exponent = (if r1 \<noteq> [] \<and> (hd r1 = CHR ''e'' \<or> hd r1 = CHR ''E'') \<and> exp_digits \<noteq> []
                      then hd r1 # sgn @ exp_digits else []);
          r2 = drop (length exponent) r1
      in if ds = [] then None
         else if frac = [] \<and> exponent = []
           then Some (JInt (if neg then - int (digits_val ds') else int (digits_val ds')), r')
         else Some (JFloat (parse_float (integer @ frac @ exponent)), r2))"

definition dict_of_pairs :: "(string \<times> json) list \<Rightarrow> dict" where
  "dict_of_pairs kvs = foldl (\<lambda>d kv. AList.update (fst kv) (snd kv) d) [] kvs"

fun scan_once :: "(string \<Rightarrow> float64) \<Rightarrow> nat \<Rightarrow> string \<Rightarrow> (json \<times> string) option"
  and scan_array :: "(string \<Rightarrow> float64) \<Rightarrow> nat \<Rightarrow> string \<Rightarrow> (json list \<times> string) option"
  and scan_object :: "(string \<Rightarrow> float64) \<Rightarrow> nat \<Rightarrow> string \<Rightarrow> ((string \<times> json) list \<times> string) option"
where
  "scan_once parse_float 0 s = None"
| "scan_once parse_float (Suc n) s =
     (case s of
        [] \<Rightarrow> None
      | c # cs \<Rightarrow>
          if c = dquote then
            (case scanstring cs of None \<Rightarrow> None | Some (str, r) \<Rightarrow> Some (JStr str, r))
          else if c = CHR ''{'' then
            (if skip_ws cs \<noteq> [] \<and> hd (skip_ws cs) = CHR ''}'' then Some (JObj [], tl (skip_ws cs))
             else (case scan_object parse_float n (skip_ws cs) of
                     None \<Rightarrow> None
                   | Some (kvs, r) \<Rightarrow> Some (JObj (dict_of_pairs kvs), r)))
          else if c = CHR ''['' then
            (if skip_ws cs \<noteq> [] \<and> hd (skip_ws cs) = CHR '']'' then Some (JList [], tl (skip_ws cs))
             else (case scan_array parse_float n (skip_ws cs) of
                     None \<Rightarrow> None
                   | Some (vs, r) \<Rightarrow> Some (JList vs, r)))
          else if take 4 s = ''null'' then Some (JNull, drop 4 s)
          else if take 4 s = ''true'' then Some (JBool True, drop 4 s)
          else if take 5 s = ''false'' then Some (JBool False, drop 5 s)
          else
            (case scan_number parse_float s of
               Some res \<Rightarrow> Some res
             | None \<Rightarrow>
                 if take 3 s = ''NaN'' then Some (JFloat (parse_float ''NaN''), drop 3 s)
                 else if take 8 s = ''Infinity'' then Some (JFloat (parse_float ''Infinity''), drop 8 s)
                 else if take 9 s = ''-Infinity'' then Some (JFloat (parse_float ''-Infinity''), drop 9 s)
                 else None))"
| "scan_array parse_float 0 s = None"
| "scan_array parse_float (Suc n) s =
     (case scan_once parse_float n s of
        None \<Rightarrow> None
      | Some (v, r) \<Rightarrow>
          (let r1 = skip_ws r in
           if r1 \<noteq> [] \<and> hd r1 = CHR '','' then
             (case scan_array parse_float n (skip_ws (tl r1)) of
                None \<Rightarrow> None
              | Some (vs, r2) \<Rightarrow> Some (v # vs, r2))
           else if r1 \<noteq> [] \<and> hd r1 = CHR '']'' then Some ([v], tl r1)
           else None))"
| "scan_object parse_float 0 s = None"
| "scan_object parse_float (Suc n) s =
     (if s \<noteq> [] \<and> hd s = dquote then
        (case scanstring (tl s) of
           None \<Rightarrow> None
         | Some (k, r) \<Rightarrow>
             (let r1 = skip_ws r in
              if r1 \<noteq> [] \<and> hd r1 = CHR '':'' then
                (case scan_once parse_float n (skip_ws (tl r1)) of
                   None \<Rightarrow> None
                 | Some (v, r2) \<Rightarrow>
                     (let r3 = skip_ws r2 in
                      if r3 \<noteq> [] \<and> hd r3 = CHR '','' then
                        (case scan_object parse_float n (skip_ws (tl r3)) of
                           None \<Rightarrow> None
                         | Some (kvs, r4) \<Rightarrow> Some ((k, v) # kvs, r4))
                      else if r3 \<noteq> [] \<and> hd r3 = CHR ''}'' then Some ([(k, v)], tl r3)
                      else None))
              else None))
      else None)"

definition json_loads :: "(string \<Rightarrow> float64) \<Rightarrow> string \<Rightarrow> error + json" where
  "json_loads parse_float s =
     (case scan_once parse_float (Suc (length s)) (skip_ws s) of
        None \<Rightarrow> Inl JSONDecodeError
      | Some (v, r) \<Rightarrow> if skip_ws r = [] then Inr v else Inl JSONDecodeError)"

text \<open>\<open>obj[key]\<close> for a key that is a string: only a dictionary can be subscripted so.\<close>

definition subscript :: "json \<Rightarrow> string \<Rightarrow> error + json" where
  "subscript obj key =
     (case obj of
        JObj kvs \<Rightarrow> (case map_of kvs key of None \<Rightarrow> Inl (KeyError key) | Some v \<Rightarrow> Inr v)
      | _ \<Rightarrow> Inl (TypeError ''not subscriptable by a string''))"

section \<open>lsm.py: SSTable\<close>

text \<open>
  An SSTable object: its directory, level and table id, and the in-memory index from
  keys to byte offsets. \<open>file_path\<close> is \<open>base_path / f"L{level}-{table_id}.sst"\<close>. The
  constructor leaves the index empty. The class has no other attribute and no other
  method than \<open>write\<close> and \<open>get\<close>.
\<close>

record SSTable =
  base_path :: string
  level :: nat
  table_id :: nat
  index :: "(string \<times> nat) list"

definition sst_name :: "nat \<Rightarrow> nat \<Rightarrow> string" where
  "sst_name lv tid = ''L'' @ show_nat lv @ ''-'' @ show_nat tid @ ''.sst''"

definition file_path :: "SSTable \<Rightarrow> path" where
  "file_path t = (base_path t, sst_name (level t) (table_id t))"

definition SSTable_init :: "string \<Rightarrow> nat \<Rightarrow> nat \<Rightarrow> SSTable" where
  "SSTable_init base lv tid = \<lparr>base_path = base, level = lv, table_id = tid, index = []\<rparr>"

text \<open>
  \<open>write(data)\<close>: the file is opened with mode \<open>w\<close> (created or truncated); the items
  are visited in sorted order (the keys of a dictionary differ, so the order is the
  keys'); each entry is \<open>json.dumps({key: value}) + "\n"\<close>, recorded in the index at
  the offset where it starts. The entry is ASCII, so its encoded length is its length.
\<close>

fun write_entries :: "(float64 \<Rightarrow> string) \<Rightarrow> (string \<times> json) list
    \<Rightarrow> string \<times> (string \<times> nat) list \<times> nat \<Rightarrow> string \<times> (string \<times> nat) list \<times> nat" where
  "write_entries float_repr [] st = st"
| "write_entries float_repr ((k, v) # kvs) (content, idx, offset) =
     (let entry = json_dumps float_repr (JObj [(k, v)]) @ [newline]
      in write_entries float_repr kvs
           (content @ entry, AList.update k offset idx, offset + length entry))"

definition sorted_items :: "dict \<Rightarrow> (string \<times> json) list" where
  "sorted_items data = sort_key fst data"

definition SSTable_write :: "(float64 \<Rightarrow> string) \<Rightarrow> filesystem \<Rightarrow> SSTable \<Rightarrow> dict
    \<Rightarrow> filesystem \<times> SSTable" where
  "SSTable_write float_repr fs t data =
     (case write_entries float_repr (sorted_items data) ([], index t, 0) of
        (content, idx, offset) \<Rightarrow> (AList.update (file_path t) content fs, t\<lparr>index := idx\<rparr>))"

text \<open>
  \<open>get(key)\<close>: \<open>None\<close> when the key is not in the index; otherwise the file is opened,
  the line at the indexed offset is read and parsed, and \<open>entry[key]\<close> is returned.
  A line ends with its line feed (the entries written above hold no other line break).
\<close>

definition readline :: "string \<Rightarrow> string" where
  "readline s =
     (let l = takeWhile (\<lambda>c. c \<noteq> newline) s
      in if length l < length s then l @ [newline] else l)"

definition SSTable_get :: "(string \<Rightarrow> float64) \<Rightarrow> filesystem \<Rightarrow> SSTable \<Rightarrow> string \<Rightarrow> error + json" where
  "SSTable_get parse_float fs t key =
     (case map_of (index t) key of
        None \<Rightarrow> Inr JNull
      | Some offset \<Rightarrow>
          (case map_of fs (file_path t) of
             None \<Rightarrow> Inl FileNotFoundError
           | Some content \<Rightarrow>
               (case json_loads parse_float (readline (drop offset content)) of
                  Inl e \<Rightarrow> Inl e
                | Inr entry \<Rightarrow> subscript entry key)))"

section \<open>lsm.py: LSMTree\<close>

text \<open>
  The tree's attributes. \<open>self.max_level\<close> is read by \<open>_load_existing_tables\<close> and by
  \<open>get\<close>; neither the constructor nor any other line of the class assigns it, and the
  class has no attribute of that name. The field is \<open>None\<close> while the attribute is absent,
  which it is on every object the class builds, and reading it then is the
  AttributeError that Python raises; \<open>Some n\<close> stands for a value assigned from outside
  the class. \<open>levels\<close> is a \<open>defaultdict(list)\<close>: a level without an entry reads as the
  empty list.
\<close>

record LSMTree =
  lsm_base_path :: string
  max_level :: "nat option"
  memtable :: dict
  immutable_memtables :: "dict list"
  levels :: "(nat \<times> SSTable list) list"
  memtable_size_limit :: nat

definition levels_at :: "LSMTree \<Rightarrow> nat \<Rightarrow> SSTable list" where
  "levels_at lsm lv = (case map_of (levels lsm) lv of None \<Rightarrow> [] | Some ts \<Rightarrow> ts)"

text \<open>
  \<open>_load_existing_tables\<close>: \<open>range(self.max_level)\<close> is evaluated first, an
  AttributeError while the attribute is absent; then, for each level below it, the files of the base
  directory matching \<open>L{level}-*.sst\<close>, in directory order; the table id is
  \<open>int(path.stem.split('-')[1])\<close>, a ValueError when that part is not a number (only
  plain digit strings are read as numbers here). Each table is a fresh \<open>SSTable\<close>
  object.
\<close>

definition glob_match :: "nat \<Rightarrow> string \<Rightarrow> bool" where
  "glob_match lv name =
     (let prefix = ''L'' @ show_nat lv @ ''-''; suffix = ''.sst''
      in length prefix + length suffix \<le> length name
         \<and> take (length prefix) name = prefix
         \<and> drop (length name - length suffix) name = suffix)"

definition glob :: "filesystem \<Rightarrow> string \<Rightarrow> nat \<Rightarrow> string list" where
  "glob fs base lv = map snd (filter (\<lambda>p. fst p = base \<and> glob_match lv (snd p)) (map fst fs))"

definition stem :: "string \<Rightarrow> string" where
  "stem name = take (length name - 4) name"

definition split_dash_1 :: "string \<Rightarrow> string" where
  "split_dash_1 s = takeWhile (\<lambda>c. c \<noteq> CHR ''-'') (tl (dropWhile (\<lambda>c. c \<noteq> CHR ''-'') s))"

definition py_int :: "string \<Rightarrow> error + nat" where
  "py_int s = (if s \<noteq> [] \<and> list_all is_digit s then Inr (digits_val s)
               else Inl (ValueError ''invalid literal for int()''))"

fun load_tables :: "string \<Rightarrow> nat \<Rightarrow> string list \<Rightarrow> error + SSTable list" where
  "load_tables base lv [] = Inr []"
| "load_tables base lv (name # names) =
     (case py_int (split_dash_1 (stem name)) of
        Inl e \<Rightarrow> Inl e
      | Inr tid \<Rightarrow>
          (case load_tables base lv names of
             Inl e \<Rightarrow> Inl e
           | Inr ts \<Rightarrow> Inr (SSTable_init base lv tid # ts)))"

fun load_levels :: "filesystem \<Rightarrow> string \<Rightarrow> nat list \<Rightarrow> (nat \<times> SSTable list) list
    \<Rightarrow> error + (nat \<times> SSTable list) list" where
  "load_levels fs base [] lvs = Inr lvs"
| "load_levels fs base (lv # rest) lvs =
     (case load_tables base lv (glob fs base lv) of
        Inl e \<Rightarrow> Inl e
      | Inr ts \<Rightarrow> load_levels fs base rest (AList.update lv ts lvs))"

definition load_existing_tables :: "filesystem \<Rightarrow> LSMTree \<Rightarrow> error + LSMTree" where
  "load_existing_tables fs lsm =
     (case max_level lsm of
        None \<Rightarrow> Inl (AttributeError ''max_level'')
      | Some n \<Rightarrow>
          (case load_levels fs (lsm_base_path lsm) [0..<n] (levels lsm) of
             Inl e \<Rightarrow> Inl e
           | Inr lvs \<Rightarrow> Inr (lsm\<lparr>levels := lvs\<rparr>)))"

text \<open>
  The constructor \<open>LSMTree(base_path)\<close> sets the base path, the empty memtable, the empty
  list of immutable memtables, the empty \<open>levels\<close> and the size limit 1000, and calls
  \<open>_load_existing_tables\<close>. It sets no \<open>max_level\<close>, so that call raises and no tree is
  ever returned.
\<close>

definition LSMTree_init :: "filesystem \<Rightarrow> string \<Rightarrow> error + LSMTree" where
  "LSMTree_init fs base =
     load_existing_tables fs
       \<lparr>lsm_base_path = base, max_level = None, memtable = [], immutable_memtables = [],
        levels = [], memtable_size_limit = 1000\<rparr>"

text \<open>
  \<open>get(key)\<close>: the memtable; then the immutable memtables in list order; then
  \<open>range(self.max_level)\<close> is evaluated, an AttributeError while the attribute is absent;
  then, for each level below it, the level's tables in reversed list order, passing over
  every table whose \<open>get\<close> gives \<open>None\<close>; then \<open>None\<close>.
\<close>

fun probe_immutable :: "dict list \<Rightarrow> string \<Rightarrow> json option" where
  "probe_immutable [] key = None"
| "probe_immutable (table # tables) key =
     (case map_of table key of
        Some v \<Rightarrow> Some v
      | None \<Rightarrow> probe_immutable tables key)"

fun probe_tables :: "(string \<Rightarrow> float64) \<Rightarrow> filesystem \<Rightarrow> SSTable list \<Rightarrow> string \<Rightarrow> error + json" where
  "probe_tables parse_float fs [] key = Inr JNull"
| "probe_tables parse_float fs (sstable # sstables) key =
     (case SSTable_get parse_float fs sstable key of
        Inl e \<Rightarrow> Inl e
      | Inr v \<Rightarrow> if v \<noteq> JNull then Inr v else probe_tables parse_float fs sstables key)"

fun probe_levels :: "(string \<Rightarrow> float64) \<Rightarrow> filesystem \<Rightarrow> LSMTree \<Rightarrow> nat list \<Rightarrow> string
    \<Rightarrow> error + json" where
  "probe_levels parse_float fs lsm [] key = Inr JNull"
| "probe_levels parse_float fs lsm (lv # lvs) key =
     (case probe_tables parse_float fs (rev (levels_at lsm lv)) key of
        Inl e \<Rightarrow> Inl e
      | Inr v \<Rightarrow> if v \<noteq> JNull then Inr v else probe_levels parse_float fs lsm lvs key)"

definition LSMTree_get :: "(string \<Rightarrow> float64) \<Rightarrow> filesystem \<Rightarrow> LSMTree \<Rightarrow> string \<Rightarrow> error + json" where
  "LSMTree_get parse_float fs lsm key =
     (case map_of (memtable lsm) key of
        Some v \<Rightarrow> Inr v
      | None \<Rightarrow>
          (case probe_immutable (immutable_memtables lsm) key of
             Some v \<Rightarrow> Inr v
           | None \<Rightarrow>
               (case max_level lsm of
                  None \<Rightarrow> Inl (AttributeError ''max_level'')
                | Some n \<Rightarrow> probe_levels parse_float fs lsm [0..<n] key)))"

text \<open>
  The methods that change the tree return the exception raised, if any, with the file
  system and the tree as the call leaves them.

  \<open>_compact_level(level)\<close>: nothing to do for an empty level; otherwise the first step of
  the merge reads \<open>table.data\<close>, an attribute no \<open>SSTable\<close> has, and the
  AttributeError leaves the method before anything is changed. (The lines after it,
  \<open>SSTable(base_path, level + 1)\<close> without a table id and \<open>new_table.flush()\<close>, are never
  reached.)
\<close>

definition compact_level :: "filesystem \<Rightarrow> LSMTree \<Rightarrow> nat \<Rightarrow> error option \<times> filesystem \<times> LSMTree" where
  "compact_level fs lsm lv =
     (let tables = levels_at lsm lv
      in if tables = [] then (None, fs, lsm)
         else (Some (AttributeError ''data''), fs, lsm))"

definition maybe_compact_level :: "filesystem \<Rightarrow> LSMTree \<Rightarrow> nat \<Rightarrow> error option \<times> filesystem \<times> LSMTree" where
  "maybe_compact_level fs lsm lv =
     (let max_tables = 4 ^ lv
      in if length (levels_at lsm lv) > max_tables then compact_level fs lsm lv
         else (None, fs, lsm))"

text \<open>
  \<open>_compact_immutable_memtables\<close>, with the clock's \<open>int(time.time() * 1000)\<close> as the
  argument \<open>now\<close>: the immutable memtables are merged in list order (a later one
  overwrites), written as a new level-0 table, appended to level 0, and the list is
  cleared; then level 0 is checked.
\<close>

definition dict_update :: "dict \<Rightarrow> dict \<Rightarrow> dict" where
  "dict_update d other = foldl (\<lambda>acc kv. AList.update (fst kv) (snd kv) acc) d other"

definition compact_immutable_memtables :: "(float64 \<Rightarrow> string) \<Rightarrow> nat \<Rightarrow> filesystem \<Rightarrow> LSMTree
    \<Rightarrow> error option \<times> filesystem \<times> LSMTree" where
  "compact_immutable_memtables float_repr now fs lsm =
     (if immutable_memtables lsm = [] then (None, fs, lsm)
      else
        (let merged_data = foldl dict_update [] (immutable_memtables lsm)
         in case SSTable_write float_repr fs (SSTable_init (lsm_base_path lsm) 0 now) merged_data of
              (fs', sstable) \<Rightarrow>
                maybe_compact_level fs'
                  (lsm\<lparr>levels := AList.update 0 (levels_at lsm 0 @ [sstable]) (levels lsm),
                       immutable_memtables := []\<rparr>) 0))"

definition maybe_flush :: "(float64 \<Rightarrow> string) \<Rightarrow> nat \<Rightarrow> filesystem \<Rightarrow> LSMTree
    \<Rightarrow> error option \<times> filesystem \<times> LSMTree" where
  "maybe_flush float_repr now fs lsm =
     (if length (memtable lsm) \<ge> memtable_size_limit lsm then
        compact_immutable_memtables float_repr now fs
          (lsm\<lparr>immutable_memtables := immutable_memtables lsm @ [memtable lsm], memtable := []\<rparr>)
      else (None, fs, lsm))"

definition LSMTree_put :: "(float64 \<Rightarrow> string) \<Rightarrow> nat \<Rightarrow> filesystem \<Rightarrow> LSMTree \<Rightarrow> string \<Rightarrow> json
    \<Rightarrow> error option \<times> filesystem \<times> LSMTree" where
  "LSMTree_put float_repr now fs lsm key v =
     maybe_flush float_repr now fs (lsm\<lparr>memtable := AList.update key v (memtable lsm)\<rparr>)"

section \<open>vector_store.py: VectorCompressor\<close>

text \<open>
  A vector is the list of its components. The components are float64 values in the code;
  here they are the elements of an ordered field whose operations stand for numpy's
  arithmetic (no rounding, no NaN). The k-means fit of scikit-learn is the parameter
  \<open>kmeans_fit n_clusters batch_size data\<close>, giving the cluster centres or the exception
  it raises.
\<close>

record 'a VectorCompressor =
  c_dimension :: nat
  n_subvectors :: nat
  subvector_dim :: nat
  n_clusters :: nat
  codebooks :: "'a list list list option"
  is_trained :: bool
  min_vals :: "'a list option"
  max_vals :: "'a list option"

text \<open>
  The constructor. Without \<open>n_subvectors\<close> it starts from \<open>min(2, dimension)\<close> and counts
  down while the dimension is not divisible (\<open>dimension % 0\<close> is a ZeroDivisionError).
\<close>

function choose_n_subvectors :: "nat \<Rightarrow> nat \<Rightarrow> error + nat" where
  "choose_n_subvectors d n =
     (if n = 0 then Inl ZeroDivisionError
      else if d mod n \<noteq> 0 \<and> n > 1 then choose_n_subvectors d (n - 1)
      else Inr n)"
  by pat_completeness auto
termination
  by (relation "measure (\<lambda>(d, n). n)") auto

declare choose_n_subvectors.simps [simp del]

definition VectorCompressor_init :: "nat \<Rightarrow> nat option \<Rightarrow> nat \<Rightarrow> error + 'a VectorCompressor" where
  "VectorCompressor_init d n_sub n_clu =
     (case (case n_sub of None \<Rightarrow> choose_n_subvectors d (min 2 d) | Some n \<Rightarrow> Inr n) of
        Inl e \<Rightarrow> Inl e
      | Inr n \<Rightarrow>
          if n = 0 then Inl ZeroDivisionError
          else if d mod n \<noteq> 0 then Inl (ValueError ''Dimension must be divisible by n_subvectors'')
          else Inr \<lparr>c_dimension = d, n_subvectors = n, subvector_dim = d div n, n_clusters = n_clu,
                    codebooks = None, is_trained = False, min_vals = None, max_vals = None\<rparr>)"

text \<open>
  \<open>np.array(vectors)\<close> needs rows of one length; \<open>np.min(vectors, axis=0)\<close> and
  \<open>np.max\<close> need at least one row. Arithmetic between a row and the stored minima needs
  equal lengths (broadcasting a single component is not modelled).
\<close>

definition np_array :: "'a list list \<Rightarrow> error + 'a list list" where
  "np_array rows =
     (if list_all (\<lambda>r. length r = length (hd rows)) rows then Inr rows
      else Inl (ValueError ''inhomogeneous shape''))"

definition np_min_axis0 :: "('a::linorder) list list \<Rightarrow> error + 'a list" where
  "np_min_axis0 rows =
     (case rows of
        [] \<Rightarrow> Inl (ValueError ''zero-size array to reduction operation minimum'')
      | r # rs \<Rightarrow> Inr (foldl (\<lambda>acc row. map2 min acc row) r rs))"

definition np_max_axis0 :: "('a::linorder) list list \<Rightarrow> error + 'a list" where
  "np_max_axis0 rows =
     (case rows of
        [] \<Rightarrow> Inl (ValueError ''zero-size array to reduction operation maximum'')
      | r # rs \<Rightarrow> Inr (foldl (\<lambda>acc row. map2 max acc row) r rs))"

text \<open>
  \<open>_normalize_vectors\<close>: the minima and maxima are taken from the first array the
  compressor sees and kept; a zero width is replaced by 1.
\<close>

definition normalize_rows :: "('a::linordered_field) list \<Rightarrow> 'a list \<Rightarrow> 'a list list \<Rightarrow> error + 'a list list" where
  "normalize_rows mins maxs rows =
     (let denominator = map (\<lambda>d. if d = 0 then 1 else d) (map2 (-) maxs mins)
      in if list_all (\<lambda>r. length r = length mins) rows \<and> length maxs = length mins
         then Inr (map (\<lambda>r. map2 (/) (map2 (-) r mins) denominator) rows)
         else Inl (ValueError ''operands could not be broadcast together''))"

definition normalize_vectors :: "('a::linordered_field) VectorCompressor \<Rightarrow> 'a list list
    \<Rightarrow> error option \<times> 'a VectorCompressor \<times> 'a list list" where
  "normalize_vectors c rows =
     (case min_vals c of
        None \<Rightarrow>
          (case np_min_axis0 rows of
             Inl e \<Rightarrow> (Some e, c, [])
           | Inr mins \<Rightarrow>
               (case np_max_axis0 rows of
                  Inl e \<Rightarrow> (Some e, c\<lparr>min_vals := Some mins\<rparr>, [])
                | Inr maxs \<Rightarrow>
                    (case normalize_rows mins maxs rows of
                       Inl e \<Rightarrow> (Some e, c\<lparr>min_vals := Some mins, max_vals := Some maxs\<rparr>, [])
                     | Inr res \<Rightarrow> (None, c\<lparr>min_vals := Some mins, max_vals := Some maxs\<rparr>, res))))
      | Some mins \<Rightarrow>
          (case max_vals c of
             None \<Rightarrow> (Some (TypeError ''unsupported operand type(s) for -''), c, [])
           | Some maxs \<Rightarrow>
               (case normalize_rows mins maxs rows of
                  Inl e \<Rightarrow> (Some e, c, [])
                | Inr res \<Rightarrow> (None, c, res))))"

text \<open>
  \<open>train(vectors)\<close>: too few vectors are a ValueError; otherwise the vectors are
  normalised and one codebook is fitted per subvector position, on the columns
  \<open>[i * subvector_dim, i * subvector_dim + subvector_dim)\<close>; then the compressor is
  trained. The result is the exception raised, if any, and the compressor as the call
  leaves it.
\<close>

definition need_at_least :: "nat \<Rightarrow> error" where
  "need_at_least n = ValueError (''Need at least '' @ show_nat n @ '' training vectors'')"

fun fit_codebooks :: "(nat \<Rightarrow> nat \<Rightarrow> 'a list list \<Rightarrow> error + 'a list list) \<Rightarrow> 'a VectorCompressor
    \<Rightarrow> nat \<Rightarrow> 'a list list \<Rightarrow> nat list \<Rightarrow> 'a list list list \<Rightarrow> error option \<times> 'a list list list" where
  "fit_codebooks kmeans_fit c n_rows normalized [] books = (None, books)"
| "fit_codebooks kmeans_fit c n_rows normalized (i # rest) books =
     (let start_idx = i * subvector_dim c;
          end_idx = start_idx + subvector_dim c;
          subvectors = map (\<lambda>r. take (end_idx - start_idx) (drop start_idx r)) normalized
      in case kmeans_fit (n_clusters c) (min 1000 n_rows) subvectors of
           Inl e \<Rightarrow> (Some e, books)
         | Inr centers \<Rightarrow> fit_codebooks kmeans_fit c n_rows normalized rest (books @ [centers]))"

definition train :: "(nat \<Rightarrow> nat \<Rightarrow> 'a list list \<Rightarrow> error + 'a list list)
    \<Rightarrow> ('a::linordered_field) VectorCompressor \<Rightarrow> 'a list list \<Rightarrow> error option \<times> 'a VectorCompressor" where
  "train kmeans_fit c vectors =
     (if length vectors < n_clusters c then (Some (need_at_least (n_clusters c)), c)
      else case np_array vectors of
        Inl e \<Rightarrow> (Some e, c)
      | Inr rows \<Rightarrow>
          (case normalize_vectors c rows of
             (Some e, c', _) \<Rightarrow> (Some e, c')
           | (None, c', normalized) \<Rightarrow>
               (case fit_codebooks kmeans_fit c' (length rows) normalized [0..<n_subvectors c'] [] of
                  (Some e, books) \<Rightarrow> (Some e, c'\<lparr>codebooks := Some books\<rparr>)
                | (None, books) \<Rightarrow> (None, c'\<lparr>codebooks := Some books, is_trained := True\<rparr>))))"

text \<open>
  \<open>decompress(codes)\<close>: one byte per subvector position selects a centre of that
  position's codebook; the centres are laid into a zero vector of the dimension and the
  normalisation is undone.
\<close>

fun lay_centres :: "'a list list list \<Rightarrow> nat list \<Rightarrow> nat \<Rightarrow> nat list \<Rightarrow> 'a list \<Rightarrow> error + 'a list" where
  "lay_centres books indices sub_dim [] vec = Inr vec"
| "lay_centres books indices sub_dim (i # rest) vec =
     (if i \<ge> length indices \<or> i \<ge> length books then Inl IndexError
      else if indices ! i \<ge> length (books ! i) then Inl IndexError
      else
        (let start_idx = i * sub_dim;
             end_idx = start_idx + sub_dim;
             centre = books ! i ! (indices ! i);
             room = min end_idx (length vec) - min start_idx (length vec)
         in if length centre \<noteq> room then Inl (ValueError ''could not broadcast input array'')
            else lay_centres books indices sub_dim rest
                   (take start_idx vec @ centre @ drop end_idx vec)))"

definition denormalize_vector :: "('a::linordered_field) VectorCompressor \<Rightarrow> 'a list \<Rightarrow> error + 'a list" where
  "denormalize_vector c vec =
     (case (min_vals c, max_vals c) of
        (Some mins, Some maxs) \<Rightarrow>
          if length maxs = length mins \<and> length vec = length mins
          then Inr (map2 (+) (map2 (*) vec (map2 (-) maxs mins)) mins)
          else Inl (ValueError ''operands could not be broadcast together'')
      | _ \<Rightarrow> Inl (TypeError ''unsupported operand type(s) for -''))"

definition decompress :: "('a::linordered_field) VectorCompressor \<Rightarrow> string \<Rightarrow> error + 'a list" where
  "decompress c codes =
     (if \<not> is_trained c then Inl (RuntimeError ''Compressor must be trained before decompression'')
      else case codebooks c of
        None \<Rightarrow> Inl (TypeError ''NoneType object is not subscriptable'')
      | Some books \<Rightarrow>
          (case lay_centres books (map of_char codes) (subvector_dim c) [0..<n_subvectors c]
                  (replicate (c_dimension c) 0) of
             Inl e \<Rightarrow> Inl e
           | Inr vec \<Rightarrow> denormalize_vector c vec))"

section \<open>vector_store.py: VectorStorage\<close>

text \<open>
  The store's attributes (the compactor only holds the storage path and is left out).
  The bytes of a float64 are given by the parameters \<open>pack\<close> (eight bytes for a
  component) and \<open>unpack\<close> (a component from eight bytes).
\<close>

record 'a VectorStorage =
  dimension :: nat
  storage_path :: string
  training_threshold :: nat
  training_vectors :: "'a list list"
  active_segment :: "SegmentFile option"
  lsm_tree :: LSMTree
  compressor :: "'a VectorCompressor"

definition segment_glob :: "filesystem \<Rightarrow> string \<Rightarrow> string list" where
  "segment_glob fs base =
     map snd (filter (\<lambda>p. fst p = base \<and> 11 \<le> length (snd p)
                            \<and> take 8 (snd p) = ''segment_''
                            \<and> drop (length (snd p) - 3) (snd p) = ''.db'') (map fst fs))"

definition segment_name :: "nat \<Rightarrow> string" where
  "segment_name segment_id =
     ''segment_'' @ replicate (6 - length (show_nat segment_id)) (CHR ''0'') @ show_nat segment_id @ ''.db''"

definition create_new_segment :: "filesystem \<Rightarrow> string \<Rightarrow> error + (filesystem \<times> SegmentFile)" where
  "create_new_segment fs base =
     (let segment_id = length (segment_glob fs base)
      in SegmentFile_init fs (base, segment_name segment_id) True)"

text \<open>
  The constructor: the LSM tree on the storage path, a compressor with 8 clusters, and a
  new active segment. The tree's constructor comes first and raises (see above), so the
  store's constructor raises as well.
\<close>

definition VectorStorage_init :: "filesystem \<Rightarrow> nat \<Rightarrow> string \<Rightarrow> nat
    \<Rightarrow> error + (filesystem \<times> 'a VectorStorage)" where
  "VectorStorage_init fs d base threshold =
     (case LSMTree_init fs base of
        Inl e \<Rightarrow> Inl e
      | Inr tree \<Rightarrow>
          (case VectorCompressor_init d None 8 of
             Inl e \<Rightarrow> Inl e
           | Inr pq \<Rightarrow>
               (case create_new_segment fs base of
                  Inl e \<Rightarrow> Inl e
                | Inr (fs', seg) \<Rightarrow>
                    Inr (fs', \<lparr>dimension = d, storage_path = base, training_threshold = threshold,
                              training_vectors = [], active_segment = Some seg, lsm_tree = tree,
                              compressor = pq\<rparr>))))"

text \<open>\<open>train_compression(vectors)\<close> checks the number of vectors and delegates.\<close>

definition train_compression :: "(nat \<Rightarrow> nat \<Rightarrow> 'a list list \<Rightarrow> error + 'a list list)
    \<Rightarrow> ('a::linordered_field) VectorStorage \<Rightarrow> 'a list list \<Rightarrow> error option \<times> 'a VectorStorage" where
  "train_compression kmeans_fit st vectors =
     (if length vectors < n_clusters (compressor st)
      then (Some (need_at_least (n_clusters (compressor st))), st)
      else case train kmeans_fit (compressor st) vectors of
             (e, c') \<Rightarrow> (e, st\<lparr>compressor := c'\<rparr>))"

text \<open>
  \<open>store_vector(vector_id, vector)\<close>: a vector of another length than the dimension is
  cut to its first \<open>dimension\<close> components (a shorter one stays as it is) and nothing is
  raised for it; the vector is turned into bytes; then the method calls
  \<open>self.active_segment.write(vector_bytes)\<close>. \<open>SegmentFile\<close> has the methods \<open>append\<close>,
  \<open>read\<close> and \<open>close\<close> and no \<open>write\<close>, so the call raises AttributeError (and with
  no active segment the method would call \<open>SegmentFile.create\<close>, which does not exist
  either). The lines after it, which would record the metadata in the LSM tree, are never
  reached; neither the files nor the store change.
\<close>

definition tobytes :: "('a \<Rightarrow> string) \<Rightarrow> 'a list \<Rightarrow> string" where
  "tobytes pack vector = concat (map pack vector)"

definition store_vector :: "('a \<Rightarrow> string) \<Rightarrow> filesystem \<Rightarrow> 'a VectorStorage \<Rightarrow> string \<Rightarrow> 'a list
    \<Rightarrow> error option \<times> filesystem \<times> 'a VectorStorage" where
  "store_vector pack fs st vector_id vector =
     (let vector' = (if length vector \<noteq> dimension st then take (dimension st) vector else vector);
          vector_bytes = tobytes pack vector'
      in case active_segment st of
           None \<Rightarrow> (Some (AttributeError ''create''), fs, st)
         | Some seg \<Rightarrow> (Some (AttributeError ''write''), fs, st))"

text \<open>
  \<open>get_vector(vector_id)\<close>: the metadata from the LSM tree, outside \<open>try\<close>, so an
  exception of the tree's \<open>get\<close> leaves the method (\<open>None\<close> gives \<open>None\<close>); then, inside
  \<open>try\<close>, the segment named by the metadata is opened, the bytes are read and turned
  into a vector (through the compressor when the metadata say so), cut to the dimension.
  Every exception inside \<open>try\<close> gives \<open>None\<close>. A float is false when it is \<open>0.0\<close> or
  \<open>-0.0\<close>; a float offset or size is a TypeError of the slice.
\<close>

fun chunks8 :: "nat \<Rightarrow> string \<Rightarrow> string list" where
  "chunks8 0 s = []"
| "chunks8 (Suc n) s = take 8 s # chunks8 n (drop 8 s)"

definition frombuffer :: "(string \<Rightarrow> 'a) \<Rightarrow> string \<Rightarrow> error + 'a list" where
  "frombuffer unpack buf =
     (if length buf mod 8 \<noteq> 0 then Inl (ValueError ''buffer size must be a multiple of element size'')
      else Inr (map unpack (chunks8 (length buf div 8) buf)))"

fun truthy :: "json \<Rightarrow> bool" where
  "truthy JNull = False"
| "truthy (JBool b) = b"
| "truthy (JInt i) = (i \<noteq> 0)"
| "truthy (JFloat x) = (x \<noteq> 0 \<and> x \<noteq> 0x8000000000000000)"
| "truthy (JStr s) = (s \<noteq> [])"
| "truthy (JList xs) = (xs \<noteq> [])"
| "truthy (JObj kvs) = (kvs \<noteq> [])"

fun as_int :: "json \<Rightarrow> error + int" where
  "as_int (JInt i) = Inr i"
| "as_int (JBool b) = Inr (if b then 1 else 0)"
| "as_int _ = Inl (TypeError ''not a number'')"

definition dict_get_default :: "json \<Rightarrow> string \<Rightarrow> json \<Rightarrow> error + json" where
  "dict_get_default obj key dflt =
     (case obj of
        JObj kvs \<Rightarrow> (case map_of kvs key of None \<Rightarrow> Inr dflt | Some v \<Rightarrow> Inr v)
      | _ \<Rightarrow> Inl (AttributeError ''get''))"

definition read_vector :: "(string \<Rightarrow> 'a) \<Rightarrow> filesystem \<Rightarrow> ('a::linordered_field) VectorStorage \<Rightarrow> json
    \<Rightarrow> error + 'a list" where
  "read_vector unpack fs st metadata =
     (case subscript metadata ''segment_id'' of
        Inl e \<Rightarrow> Inl e
      | Inr (JStr name) \<Rightarrow>
          (case SegmentFile_init fs (storage_path st, name) False of
             Inl e \<Rightarrow> Inl e
           | Inr (fs', segment) \<Rightarrow>
               (case subscript metadata ''offset'' of
                  Inl e \<Rightarrow> Inl e
                | Inr joff \<Rightarrow>
                    (case subscript metadata ''size'' of
                       Inl e \<Rightarrow> Inl e
                     | Inr jsize \<Rightarrow>
                         (case as_int joff of
                            Inl e \<Rightarrow> Inl e
                          | Inr offset \<Rightarrow>
                              (case as_int jsize of
                                 Inl e \<Rightarrow> Inl e
                               | Inr sz \<Rightarrow>
                                   (case SegmentFile_read fs' segment offset sz of
                                      Inl e \<Rightarrow> Inl e
                                    | Inr vector_bytes \<Rightarrow>
                                        (case dict_get_default metadata ''compressed'' (JBool False) of
                                           Inl e \<Rightarrow> Inl e
                                         | Inr flag \<Rightarrow>
                                             (case (if truthy flag then decompress (compressor st) vector_bytes
                                                    else frombuffer unpack vector_bytes) of
                                                Inl e \<Rightarrow> Inl e
                                              | Inr vector \<Rightarrow> Inr (take (dimension st) vector)))))))))
      | Inr _ \<Rightarrow> Inl (TypeError ''unsupported operand type(s) for /''))"

definition get_vector :: "(string \<Rightarrow> 'a) \<Rightarrow> (string \<Rightarrow> float64) \<Rightarrow> filesystem
    \<Rightarrow> ('a::linordered_field) VectorStorage \<Rightarrow> string \<Rightarrow> error + 'a list option" where
  "get_vector unpack parse_float fs st vector_id =
     (case LSMTree_get parse_float fs (lsm_tree st) vector_id of
        Inl e \<Rightarrow> Inl e
      | Inr metadata \<Rightarrow>
          if metadata = JNull then Inr None
          else (case read_vector unpack fs st metadata of
                  Inl e \<Rightarrow> Inr None
                | Inr vector \<Rightarrow> Inr (Some vector)))"

section \<open>heapq, as hnsw.py uses it\<close>

text \<open>
  A \<open>SearchResult\<close> is a node id with its distance; \<open>__lt__\<close> compares the distances,
  so every comparison below is on \<open>snd\<close>. Distances are floats in the code; here they
  are the elements of a linear order (no NaN, no infinity other than the \<open>float('inf')\<close>
  the code itself uses, which is \<open>None\<close> in \<open>furthest_dist\<close>).

  \<open>heapq\<close> keeps a binary min-heap in a list: \<open>_siftdown\<close> moves the item at \<open>pos\<close>
  towards the root while it is smaller than its parent, \<open>_siftup\<close> moves the smaller
  child up until a leaf is reached and then sifts the item down from there.
  \<open>heappush\<close> appends and sifts down; \<open>heappop\<close> takes the last item out, and, when
  items remain, returns the root and puts the last item in its place.
\<close>

type_synonym 'd SearchResult = "string \<times> 'd"

function siftdown_loop :: "('d::linorder) SearchResult list \<Rightarrow> 'd SearchResult \<Rightarrow> nat \<Rightarrow> nat
    \<Rightarrow> 'd SearchResult list \<times> nat" where
  "siftdown_loop heap newitem startpos pos =
     (if pos > startpos then
        (let parentpos = (pos - 1) div 2;
             parent = heap ! parentpos
         in if snd newitem < snd parent then siftdown_loop (heap[pos := parent]) newitem startpos parentpos
            else (heap, pos))
      else (heap, pos))"
  by pat_completeness auto
termination
  by (relation "measure (\<lambda>(heap, newitem, startpos, pos). pos)") auto

declare siftdown_loop.simps [simp del]

definition siftdown :: "('d::linorder) SearchResult list \<Rightarrow> nat \<Rightarrow> nat \<Rightarrow> 'd SearchResult list" where
  "siftdown heap startpos pos =
     (let newitem = heap ! pos
      in case siftdown_loop heap newitem startpos pos of (h, p) \<Rightarrow> h[p := newitem])"

function siftup_loop :: "('d::linorder) SearchResult list \<Rightarrow> nat \<Rightarrow> 'd SearchResult list \<times> nat" where
  "siftup_loop heap pos =
     (let endpos = length heap;
          childpos = 2 * pos + 1
      in if childpos < endpos then
           (let rightpos = childpos + 1;
                childpos' = (if rightpos < endpos \<and> \<not> snd (heap ! childpos) < snd (heap ! rightpos)
                             then rightpos else childpos)
            in siftup_loop (heap[pos := heap ! childpos']) childpos')
         else (heap, pos))"
  by pat_completeness auto
termination
  by (relation "measure (\<lambda>(heap, pos). length heap - pos)") (auto simp: Let_def)

declare siftup_loop.simps [simp del]

definition siftup :: "('d::linorder) SearchResult list \<Rightarrow> nat \<Rightarrow> 'd SearchResult list" where
  "siftup heap pos =
     (let newitem = heap ! pos
      in case siftup_loop heap pos of (h, p) \<Rightarrow> siftdown (h[p := newitem]) pos p)"

definition heappush :: "('d::linorder) SearchResult list \<Rightarrow> 'd SearchResult \<Rightarrow> 'd SearchResult list" where
  "heappush heap item = siftdown (heap @ [item]) 0 (length heap)"

definition heappop :: "('d::linorder) SearchResult list \<Rightarrow> error + ('d SearchResult \<times> 'd SearchResult list)" where
  "heappop heap =
     (if heap = [] then Inl IndexError
      else
        (let lastelt = last heap;
             heap' = butlast heap
         in if heap' \<noteq> [] then Inr (heap' ! 0, siftup (heap'[0 := lastelt]) 0)
            else Inr (lastelt, [])))"

text \<open>The heap operations keep the items (as a multiset) and change the length by one.\<close>

lemma mset_update_swap:
  "i < length xs \<Longrightarrow> j < length xs \<Longrightarrow> i \<noteq> j \<Longrightarrow>
     mset (xs[i := xs ! j, j := x]) = mset (xs[i := x])"
proof -
  assume a: "i < length xs" "j < length xs" "i \<noteq> j"
  have "mset (xs[i := xs ! j, j := x]) = add_mset x (mset (xs[i := xs ! j]) - {#xs[i := xs ! j] ! j#})"
    using a by (subst mset_update) simp_all
  also have "xs[i := xs ! j] ! j = xs ! j" using a by simp
  also have "mset (xs[i := xs ! j]) = add_mset (xs ! j) (mset xs - {#xs ! i#})"
    using a by (subst mset_update) simp_all
  also have "add_mset (xs ! j) (mset xs - {#xs ! i#}) - {#xs ! j#} = mset xs - {#xs ! i#}"
    by simp
  also have "add_mset x (mset xs - {#xs ! i#}) = mset (xs[i := x])"
    using a by (subst mset_update) simp_all
  finally show ?thesis .
qed

lemma siftdown_loop_mset:
  "pos < length heap \<Longrightarrow> siftdown_loop heap newitem startpos pos = (h, p) \<Longrightarrow>
     p < length h \<and> length h = length heap \<and> mset (h[p := newitem]) = mset (heap[pos := newitem])"
proof (induction heap newitem startpos pos arbitrary: h p rule: siftdown_loop.induct)
  case (1 heap newitem startpos pos)
  show ?case
  proof (cases "pos > startpos \<and> snd newitem < snd (heap ! ((pos - 1) div 2))")
    case True
    let ?pp = "(pos - 1) div 2"
    have pp: "?pp < pos" using True by auto
    have "siftdown_loop heap newitem startpos pos
        = siftdown_loop (heap[pos := heap ! ?pp]) newitem startpos ?pp"
      using True by (subst siftdown_loop.simps) (simp add: Let_def)
    with "1.prems"(2)
    have rec: "siftdown_loop (heap[pos := heap ! ?pp]) newitem startpos ?pp = (h, p)"
      by simp
    have "?pp < length (heap[pos := heap ! ?pp])" using pp "1.prems"(1) by simp
    from "1.IH" [OF _ refl refl _ this rec] True
    have ih: "p < length h" "length h = length heap"
      "mset (h[p := newitem]) = mset (heap[pos := heap ! ?pp, ?pp := newitem])"
      by auto
    have "mset (heap[pos := heap ! ?pp, ?pp := newitem]) = mset (heap[pos := newitem])"
      using pp "1.prems"(1) by (intro mset_update_swap) auto
    with ih show ?thesis by simp
  next
    case False
    then have "siftdown_loop heap newitem startpos pos = (heap, pos)"
      by (subst siftdown_loop.simps) (auto simp: Let_def)
    with "1.prems"(2) have "h = heap" "p = pos" by simp_all
    with "1.prems"(1) show ?thesis by simp
  qed
qed

lemma siftdown_mset:
  assumes "pos < length heap"
  shows "mset (siftdown heap startpos pos) = mset heap \<and> length (siftdown heap startpos pos) = length heap"
proof -
  obtain h p where hp: "siftdown_loop heap (heap ! pos) startpos pos = (h, p)"
    by (cases "siftdown_loop heap (heap ! pos) startpos pos") auto
  from siftdown_loop_mset [OF assms hp] show ?thesis
    by (simp add: siftdown_def hp)
qed


lemma siftup_loop_mset:
  "pos < length heap \<Longrightarrow> siftup_loop heap pos = (h, p) \<Longrightarrow>
     p < length h \<and> length h = length heap \<and> mset (h[p := x]) = mset (heap[pos := x])"
proof (induction heap pos arbitrary: h p rule: siftup_loop.induct)
  case (1 heap pos)
  let ?c = "2 * pos + 1"
  show ?case
  proof (cases "?c < length heap")
    case True
    let ?c' = "if ?c + 1 < length heap \<and> \<not> snd (heap ! ?c) < snd (heap ! (?c + 1)) then ?c + 1 else ?c"
    have c': "?c' < length heap" "pos < ?c'" using True by auto
    have "siftup_loop heap pos = siftup_loop (heap[pos := heap ! ?c']) ?c'"
      using True by (subst siftup_loop.simps) (simp add: Let_def)
    with "1.prems"(2) have rec: "siftup_loop (heap[pos := heap ! ?c']) ?c' = (h, p)" by simp
    have "?c' < length (heap[pos := heap ! ?c'])" using c' by simp
    from "1.IH" [OF refl refl True refl refl this rec]
    have ih: "p < length h" "length h = length heap"
      "mset (h[p := x]) = mset (heap[pos := heap ! ?c', ?c' := x])"
      by auto
    have "mset (heap[pos := heap ! ?c', ?c' := x]) = mset (heap[pos := x])"
      using c' "1.prems"(1) by (intro mset_update_swap) auto
    with ih show ?thesis by simp
  next
    case False
    then have "siftup_loop heap pos = (heap, pos)"
      by (subst siftup_loop.simps) (auto simp: Let_def)
    with "1.prems"(2) have "h = heap" "p = pos" by simp_all
    with "1.prems"(1) show ?thesis by simp
  qed
qed

lemma siftup_mset:
  assumes "pos < length heap"
  shows "mset (siftup heap pos) = mset heap \<and> length (siftup heap pos) = length heap"
proof -
  obtain h p where hp: "siftup_loop heap pos = (h, p)"
    by (cases "siftup_loop heap pos") auto
  from siftup_loop_mset [OF assms hp, of "heap ! pos"]
  have a: "p < length h" "length h = length heap" "mset (h[p := heap ! pos]) = mset heap"
    by simp_all
  have "p < length (h[p := heap ! pos])" using a by simp
  from siftdown_mset [OF this, of pos] a show ?thesis
    by (simp add: siftup_def hp)
qed

lemma heappush_mset:
  "mset (heappush heap item) = add_mset item (mset heap) \<and> length (heappush heap item) = Suc (length heap)"
  using siftdown_mset [of "length heap" "heap @ [item]" 0] by (simp add: heappush_def)

lemma heappop_mset:
  assumes "heap \<noteq> []"
  shows "\<exists>x h'. heappop heap = Inr (x, h') \<and> mset heap = add_mset x (mset h')
           \<and> Suc (length h') = length heap"
proof (cases "butlast heap = []")
  case True
  with assms have eq: "heap = [last heap]"
    by (metis append_butlast_last_id append_Nil)
  then have "mset heap = {#last heap#}" by (metis mset.simps(1) mset.simps(2))
  moreover have "length heap = Suc 0" by (subst eq) simp
  ultimately show ?thesis using True assms by (simp add: heappop_def)
next
  case False
  define b where "b = butlast heap"
  have h: "heap = b @ [last heap]" using assms by (simp add: b_def)
  have m: "mset heap = add_mset (last heap) (mset b)"
    by (subst h) simp
  have l: "0 < length b" using False by (simp add: b_def del: length_butlast)
  then have "0 < length (b[0 := last heap])" by simp
  from siftup_mset [OF this]
  have s: "mset (siftup (b[0 := last heap]) 0) = mset (b[0 := last heap])"
    "length (siftup (b[0 := last heap]) 0) = length b" by simp_all
  have "mset (b[0 := last heap]) = add_mset (last heap) (mset b - {#b ! 0#})"
    using l by (subst mset_update) simp_all
  moreover have "b ! 0 \<in># mset b" using l by (metis nth_mem_mset)
  ultimately have "add_mset (b ! 0) (mset (siftup (b[0 := last heap]) 0)) = mset heap"
    using s m by simp
  moreover have "heappop heap = Inr (b ! 0, siftup (b[0 := last heap]) 0)"
    using assms False by (simp add: heappop_def b_def Let_def)
  moreover have "Suc (length b) = length heap" by (subst h) simp
  ultimately show ?thesis using s(2) by simp
qed

section \<open>hnsw.py: HNSWGraph\<close>

text \<open>
  The graph's attributes; the \<open>DistanceMetric\<close> object is the parameter \<open>metric\<close> of the
  functions below. Dictionaries are lists of items in insertion order. A Python \<open>set\<close>
  of node ids is the list of its elements without repetition; a \<open>for\<close> loop over it
  visits them in list order (Python leaves the order of a set open). \<open>curr_id\<close> is the
  variable \<open>curr\<close> of the code.
\<close>

record 'v HNSWGraph =
  dim :: nat
  M :: nat
  M_max0 :: nat
  ef_construction :: nat
  ml_max :: nat
  nodes :: "(string \<times> 'v) list"
  layers :: "(nat \<times> string list) list"
  neighbors :: "(string \<times> (nat \<times> string list) list) list"
  entry_point :: "string option"
  max_layer :: nat

definition HNSWGraph_init :: "nat \<Rightarrow> nat \<Rightarrow> nat \<Rightarrow> nat \<Rightarrow> 'v HNSWGraph" where
  "HNSWGraph_init d m efc mlmax =
     \<lparr>dim = d, M = m, M_max0 = m * 2, ef_construction = efc, ml_max = mlmax, nodes = [],
      layers = [], neighbors = [], entry_point = None, max_layer = 0\<rparr>"

definition neighbors_at :: "(nat \<times> string list) list \<Rightarrow> nat \<Rightarrow> string list" where
  "neighbors_at by_layer layer = (case map_of by_layer layer of None \<Rightarrow> [] | Some s \<Rightarrow> s)"

definition select_neighbors :: "('d::linorder) SearchResult list \<Rightarrow> nat \<Rightarrow> nat \<Rightarrow> string list" where
  "select_neighbors candidates m layer = map fst (take m (sort_key snd candidates))"

definition furthest_dist :: "'d SearchResult list \<Rightarrow> nat \<Rightarrow> error + 'd option" where
  "furthest_dist results ef =
     (if length results \<ge> ef then
        (if results = [] then Inl IndexError else Inr (Some (snd (last results))))
      else Inr None)"

definition exceeds :: "('d::linorder) \<Rightarrow> 'd option \<Rightarrow> bool" where
  "exceeds d furthest = (case furthest of None \<Rightarrow> False | Some f \<Rightarrow> f < d)"

definition below :: "('d::linorder) \<Rightarrow> 'd option \<Rightarrow> bool" where
  "below d furthest = (case furthest of None \<Rightarrow> True | Some f \<Rightarrow> d < f)"

fun visit_neighbors :: "('v \<Rightarrow> 'v \<Rightarrow> 'd::linorder) \<Rightarrow> (string \<times> 'v) list \<Rightarrow> 'v \<Rightarrow> nat \<Rightarrow> 'd option
    \<Rightarrow> string list \<Rightarrow> string list \<times> 'd SearchResult list \<times> 'd SearchResult list
    \<Rightarrow> error + (string list \<times> 'd SearchResult list \<times> 'd SearchResult list)" where
  "visit_neighbors metric nds query ef furthest [] st = Inr st"
| "visit_neighbors metric nds query ef furthest (neighbor_id # rest) (visited, candidates, results) =
     (if neighbor_id \<in> set visited then
        visit_neighbors metric nds query ef furthest rest (visited, candidates, results)
      else
        (case map_of nds neighbor_id of
           None \<Rightarrow> Inl (KeyError neighbor_id)
         | Some vec \<Rightarrow>
             (let dist = metric query vec in
              if length results < ef \<or> below dist furthest then
                (let neighbor_result = (neighbor_id, dist);
                     candidates' = heappush candidates neighbor_result;
                     results' = heappush results neighbor_result
                 in if length results' > ef then
                      (case heappop results' of
                         Inl e \<Rightarrow> Inl e
                       | Inr (worst, results'') \<Rightarrow>
                           visit_neighbors metric nds query ef furthest rest
                             (neighbor_id # visited, candidates', results''))
                    else visit_neighbors metric nds query ef furthest rest
                           (neighbor_id # visited, candidates', results'))
              else visit_neighbors metric nds query ef furthest rest
                     (neighbor_id # visited, candidates, results))))"

text \<open>
  One pass of the \<open>for\<close> loop in \<open>_search_layer\<close> never makes \<open>candidates\<close> longer
  than the number of nodes it newly marks as visited, all of them keys of \<open>nodes\<close>; this
  is what bounds the \<open>while\<close> loop.
\<close>

lemma visit_neighbors_measure:
  "visit_neighbors metric nds query ef furthest nbrs (V, C, R) = Inr (V', C', R') \<Longrightarrow>
     length C' + card (fst ` set nds - set V') \<le> length C + card (fst ` set nds - set V)"
proof (induction nbrs arbitrary: V C R)
  case Nil
  then show ?case by simp
next
  case (Cons n nbrs)
  show ?case
  proof (cases "n \<in> set V")
    case True
    with Cons.prems have "visit_neighbors metric nds query ef furthest nbrs (V, C, R) = Inr (V', C', R')"
      by simp
    from Cons.IH [OF this] show ?thesis .
  next
    case False
    from Cons.prems False obtain vec where vec: "map_of nds n = Some vec"
      by (cases "map_of nds n") auto
    then have nK: "n \<in> fst ` set nds" by (metis map_of_SomeD fst_conv image_eqI)
    have fin: "finite (fst ` set nds - set V)" by simp
    have "fst ` set nds - set (n # V) = (fst ` set nds - set V) - {n}" by auto
    moreover have "n \<in> fst ` set nds - set V" using nK False by simp
    ultimately have card: "Suc (card (fst ` set nds - set (n # V))) = card (fst ` set nds - set V)"
      using fin by (metis card_Suc_Diff1)
    from Cons.prems False vec obtain C1 R1 where
      rec: "visit_neighbors metric nds query ef furthest nbrs (n # V, C1, R1) = Inr (V', C', R')"
      and len: "length C1 \<le> Suc (length C)"
      by (auto simp: Let_def heappush_mset split: if_splits sum.splits)
    from Cons.IH [OF rec] card len show ?thesis by linarith
  qed
qed

text \<open>
  The \<open>while candidates\<close> loop of \<open>_search_layer\<close>. \<open>furthest_dist\<close> is
  \<open>results[-1].distance\<close>, the last item of the list that holds the heap, when the
  list has at least \<open>ef\<close> items, and infinity otherwise; it is computed once per pass.
  \<open>self.neighbors[current.id]\<close> raises KeyError for an unknown id, as
  \<open>self.nodes[neighbor_id]\<close> does. When \<open>results\<close> grows beyond \<open>ef\<close>, \<open>heappop\<close>
  takes its root out.
\<close>

function search_loop :: "('v \<Rightarrow> 'v \<Rightarrow> 'd::linorder) \<Rightarrow> 'v HNSWGraph \<Rightarrow> 'v \<Rightarrow> nat \<Rightarrow> nat
    \<Rightarrow> string list \<times> 'd SearchResult list \<times> 'd SearchResult list
    \<Rightarrow> error + 'd SearchResult list" where
  "search_loop metric g query ef layer (visited, candidates, results) =
     (if candidates = [] then Inr results
      else
        (case heappop candidates of
           Inl e \<Rightarrow> Inl e
         | Inr (current, candidates') \<Rightarrow>
             (case furthest_dist results ef of
                Inl e \<Rightarrow> Inl e
              | Inr furthest \<Rightarrow>
                  if exceeds (snd current) furthest then Inr results
                  else
                    (case map_of (neighbors g) (fst current) of
                       None \<Rightarrow> Inl (KeyError (fst current))
                     | Some by_layer \<Rightarrow>
                         (case visit_neighbors metric (nodes g) query ef furthest
                                 (neighbors_at by_layer layer) (visited, candidates', results) of
                            Inl e \<Rightarrow> Inl e
                          | Inr st \<Rightarrow> search_loop metric g query ef layer st)))))"
  by pat_completeness auto
termination
proof (relation "measure (\<lambda>(metric, g, query, ef, layer, visited, candidates, results).
    length candidates + card (fst ` set (nodes g) - set visited))", goal_cases)
  case 1
  then show ?case by simp
next
  case (2 metric g query ef layer visited candidates results x2 current candidates' furthest by_layer st)
  obtain V' C' R' where st: "st = (V', C', R')" by (cases st) auto
  from 2 have "candidates \<noteq> []" by simp
  from heappop_mset [OF this] 2 have "Suc (length candidates') = length candidates" by auto
  moreover from visit_neighbors_measure 2 st
  have "length C' + card (fst ` set (nodes g) - set V')
      \<le> length candidates' + card (fst ` set (nodes g) - set visited)" by metis
  ultimately show ?case using st by simp
qed

declare search_loop.simps [simp del]

text \<open>
  \<open>_search_layer\<close> returns \<open>sorted(results)\<close> (a stable sort on the distances);
  \<open>search\<close> returns the empty list when \<open>not self.entry_point\<close> (no entry point, or
  the empty string), descends through the layers \<open>max_layer, ..., 1\<close> with \<open>ef = 1\<close>
  taking \<open>results[0].id\<close>, then searches layer 0 with \<open>ef = k\<close> and returns
  \<open>results[:k]\<close>.
\<close>

definition search_layer :: "('v \<Rightarrow> 'v \<Rightarrow> 'd::linorder) \<Rightarrow> 'v HNSWGraph \<Rightarrow> 'v \<Rightarrow> string \<Rightarrow> nat \<Rightarrow> nat
    \<Rightarrow> error + 'd SearchResult list" where
  "search_layer metric g query entry ef layer =
     (case map_of (nodes g) entry of
        None \<Rightarrow> Inl (KeyError entry)
      | Some vec \<Rightarrow>
          (let entry_result = (entry, metric query vec)
           in case search_loop metric g query ef layer
                     ([entry], heappush [] entry_result, heappush [] entry_result) of
                Inl e \<Rightarrow> Inl e
              | Inr results \<Rightarrow> Inr (sort_key snd results)))"

fun descend :: "('v \<Rightarrow> 'v \<Rightarrow> 'd::linorder) \<Rightarrow> 'v HNSWGraph \<Rightarrow> 'v \<Rightarrow> string \<Rightarrow> nat list \<Rightarrow> error + string" where
  "descend metric g query curr_id [] = Inr curr_id"
| "descend metric g query curr_id (l # ls) =
     (case search_layer metric g query curr_id 1 l of
        Inl e \<Rightarrow> Inl e
      | Inr results \<Rightarrow>
          (case results of
             [] \<Rightarrow> Inl IndexError
           | r # _ \<Rightarrow> descend metric g query (fst r) ls))"

definition HNSWGraph_search :: "('v \<Rightarrow> 'v \<Rightarrow> 'd::linorder) \<Rightarrow> 'v HNSWGraph \<Rightarrow> 'v \<Rightarrow> nat \<Rightarrow> error + 'd SearchResult list" where
  "HNSWGraph_search metric g query k =
     (case entry_point g of
        None \<Rightarrow> Inr []
      | Some ep \<Rightarrow>
          if ep = [] then Inr []
          else
            (case descend metric g query ep (rev [1..<Suc (max_layer g)]) of
               Inl e \<Rightarrow> Inl e
             | Inr curr_id \<Rightarrow>
                 (case search_layer metric g query curr_id k 0 of
                    Inl e \<Rightarrow> Inl e
                  | Inr results \<Rightarrow> Inr (take k results))))"

text \<open>
  \<open>insert(id, vector)\<close>, with the value of \<open>_get_random_level()\<close> as the argument
  \<open>random_level\<close>. A duplicate id is a ValueError. The node gets an empty neighbour
  set on each of its layers \<open>0..level\<close>. The first node becomes the entry point.
  Otherwise, from the entry point and for each layer from \<open>max_layer\<close> down to 0: the
  greedy \<open>while changed\<close> loop moves to a closer neighbour as long as one pass over the
  current node's neighbours finds one (the pass runs over the neighbours of the node it
  started from); on the layers \<open>l <= level\<close> the node is then linked, in both
  directions, with the \<open>M\<close> (on layer 0: \<open>M_max0\<close>) nearest results of
  \<open>_search_layer\<close>. No neighbour set is ever made smaller. When \<open>insert\<close> raises, the
  result is the exception alone (the partly updated graph it leaves behind is not kept).
\<close>

definition set_add :: "string list \<Rightarrow> string \<Rightarrow> string list" where
  "set_add s x = (if x \<in> set s then s else s @ [x])"

fun init_layers :: "string \<Rightarrow> nat list \<Rightarrow> (nat \<times> string list) list \<times> (nat \<times> string list) list
    \<Rightarrow> (nat \<times> string list) list \<times> (nat \<times> string list) list" where
  "init_layers node_id [] st = st"
| "init_layers node_id (l # ls) (lays, by_layer) =
     init_layers node_id ls
       (AList.update l (set_add (case map_of lays l of None \<Rightarrow> [] | Some s \<Rightarrow> s) node_id) lays,
        AList.update l [] by_layer)"

fun greedy_scan :: "('v \<Rightarrow> 'v \<Rightarrow> 'd::linorder) \<Rightarrow> (string \<times> 'v) list \<Rightarrow> 'v \<Rightarrow> string list
    \<Rightarrow> string \<times> 'd \<times> bool \<Rightarrow> error + (string \<times> 'd \<times> bool)" where
  "greedy_scan metric nds vector [] st = Inr st"
| "greedy_scan metric nds vector (neighbor_id # rest) (curr_id, curr_dist, changed) =
     (case map_of nds neighbor_id of
        None \<Rightarrow> Inl (KeyError neighbor_id)
      | Some vec \<Rightarrow>
          (let dist = metric vector vec in
           if dist < curr_dist then greedy_scan metric nds vector rest (neighbor_id, dist, True)
           else greedy_scan metric nds vector rest (curr_id, curr_dist, changed)))"

definition at_dist :: "('v \<Rightarrow> 'v \<Rightarrow> 'd) \<Rightarrow> (string \<times> 'v) list \<Rightarrow> 'v \<Rightarrow> string \<Rightarrow> 'd \<Rightarrow> bool" where
  "at_dist metric nds vector c d = (\<exists>vec. map_of nds c = Some vec \<and> metric vector vec = d)"

text \<open>
  A pass of the greedy loop that reports a change ends at a node of the graph that is
  strictly closer than where it started; this bounds the \<open>while changed\<close> loop.
\<close>

lemma greedy_scan_progress:
  "greedy_scan metric nds vector ns (c, d, ch) = Inr (c', d', ch') \<Longrightarrow>
     d' \<le> d \<and> (ch' \<longrightarrow> ch \<or> d' < d)
     \<and> ((ch \<longrightarrow> at_dist metric nds vector c d) \<longrightarrow> (ch' \<longrightarrow> at_dist metric nds vector c' d'))"
proof (induction ns arbitrary: c d ch)
  case Nil
  then show ?case by auto
next
  case (Cons n ns)
  from Cons.prems obtain vec where vec: "map_of nds n = Some vec"
    by (cases "map_of nds n") auto
  show ?case
  proof (cases "metric vector vec < d")
    case True
    with Cons.prems vec
    have "greedy_scan metric nds vector ns (n, metric vector vec, True) = Inr (c', d', ch')"
      by (simp add: Let_def)
    from Cons.IH [OF this] have "d' \<le> metric vector vec"
      and "(True \<longrightarrow> at_dist metric nds vector n (metric vector vec))
            \<longrightarrow> (ch' \<longrightarrow> at_dist metric nds vector c' d')" by blast+
    moreover have "at_dist metric nds vector n (metric vector vec)"
      using vec by (auto simp: at_dist_def)
    ultimately show ?thesis using True by auto
  next
    case False
    with Cons.prems vec
    have "greedy_scan metric nds vector ns (c, d, ch) = Inr (c', d', ch')"
      by (simp add: Let_def)
    from Cons.IH [OF this] show ?thesis .
  qed
qed

function greedy_loop :: "('v \<Rightarrow> 'v \<Rightarrow> 'd::linorder) \<Rightarrow> 'v HNSWGraph \<Rightarrow> 'v \<Rightarrow> nat \<Rightarrow> string \<times> 'd
    \<Rightarrow> error + (string \<times> 'd)" where
  "greedy_loop metric g vector l (curr_id, curr_dist) =
     (case map_of (neighbors g) curr_id of
        None \<Rightarrow> Inl (KeyError curr_id)
      | Some by_layer \<Rightarrow>
          (case greedy_scan metric (nodes g) vector (neighbors_at by_layer l) (curr_id, curr_dist, False) of
             Inl e \<Rightarrow> Inl e
           | Inr (c, d, changed) \<Rightarrow>
               if changed then greedy_loop metric g vector l (c, d) else Inr (c, d)))"
  by pat_completeness auto
termination
proof (relation "measure (\<lambda>(metric, g, vector, l, curr_id, curr_dist).
    card {n \<in> fst ` set (nodes g). \<exists>vec. map_of (nodes g) n = Some vec \<and> metric vector vec < curr_dist})",
    goal_cases)
  case 1
  then show ?case by simp
next
  case (2 metric g vector l curr_id curr_dist by_layer x2 c y d changed)
  let ?S = "\<lambda>r. {n \<in> fst ` set (nodes g). \<exists>vec. map_of (nodes g) n = Some vec \<and> metric vector vec < r}"
  from 2 have scan: "greedy_scan metric (nodes g) vector (neighbors_at by_layer l) (curr_id, curr_dist, False)
      = Inr (c, d, True)" by simp
  from greedy_scan_progress [OF scan]
  have lt: "d < curr_dist" and at: "at_dist metric (nodes g) vector c d" by auto
  from at obtain vec where vec: "map_of (nodes g) c = Some vec" "metric vector vec = d"
    by (auto simp: at_dist_def)
  then have cK: "c \<in> fst ` set (nodes g)" by (metis map_of_SomeD fst_conv image_eqI)
  have "c \<in> ?S curr_dist" using cK vec lt by auto
  moreover have "c \<notin> ?S d" using vec by auto
  moreover have "?S d \<subseteq> ?S curr_dist" using lt by auto
  ultimately have "?S d \<subset> ?S curr_dist" by blast
  moreover have "finite (?S curr_dist)" by simp
  ultimately have "card (?S d) < card (?S curr_dist)" by (rule psubset_card_mono [rotated])
  then show ?case by simp
qed

declare greedy_loop.simps [simp del]

definition add_neighbor :: "(string \<times> (nat \<times> string list) list) list \<Rightarrow> string \<Rightarrow> nat \<Rightarrow> string
    \<Rightarrow> error + (string \<times> (nat \<times> string list) list) list" where
  "add_neighbor nbrs a l b =
     (case map_of nbrs a of
        None \<Rightarrow> Inl (KeyError a)
      | Some by_layer \<Rightarrow>
          (case map_of by_layer l of
             None \<Rightarrow> Inl (KeyError (show_nat l))
           | Some s \<Rightarrow> Inr (AList.update a (AList.update l (set_add s b) by_layer) nbrs)))"

fun connect :: "string \<Rightarrow> nat \<Rightarrow> string list \<Rightarrow> (string \<times> (nat \<times> string list) list) list
    \<Rightarrow> error + (string \<times> (nat \<times> string list) list) list" where
  "connect node_id l [] nbrs = Inr nbrs"
| "connect node_id l (neighbor_id # rest) nbrs =
     (case add_neighbor nbrs node_id l neighbor_id of
        Inl e \<Rightarrow> Inl e
      | Inr nbrs1 \<Rightarrow>
          (case add_neighbor nbrs1 neighbor_id l node_id of
             Inl e \<Rightarrow> Inl e
           | Inr nbrs2 \<Rightarrow> connect node_id l rest nbrs2))"

fun insert_layers :: "('v \<Rightarrow> 'v \<Rightarrow> 'd::linorder) \<Rightarrow> string \<Rightarrow> 'v \<Rightarrow> nat \<Rightarrow> nat list
    \<Rightarrow> 'v HNSWGraph \<times> string \<times> 'd \<Rightarrow> error + 'v HNSWGraph" where
  "insert_layers metric node_id vector lvl [] (g, curr_id, curr_dist) = Inr g"
| "insert_layers metric node_id vector lvl (l # ls) (g, curr_id, curr_dist) =
     (case greedy_loop metric g vector l (curr_id, curr_dist) of
        Inl e \<Rightarrow> Inl e
      | Inr (c, d) \<Rightarrow>
          if l \<le> lvl then
            (case search_layer metric g vector c (ef_construction g) l of
               Inl e \<Rightarrow> Inl e
             | Inr candidates \<Rightarrow>
                 (case connect node_id l
                         (select_neighbors candidates (if l = 0 then M_max0 g else M g) l)
                         (neighbors g) of
                    Inl e \<Rightarrow> Inl e
                  | Inr nbrs \<Rightarrow>
                      insert_layers metric node_id vector lvl ls (g\<lparr>neighbors := nbrs\<rparr>, c, d)))
          else insert_layers metric node_id vector lvl ls (g, c, d))"

definition HNSWGraph_insert :: "('v \<Rightarrow> 'v \<Rightarrow> 'd::linorder) \<Rightarrow> nat \<Rightarrow> 'v HNSWGraph \<Rightarrow> string \<Rightarrow> 'v
    \<Rightarrow> error + 'v HNSWGraph" where
  "HNSWGraph_insert metric random_level g node_id vector =
     (if node_id \<in> fst ` set (nodes g)
      then Inl (ValueError (''Node '' @ node_id @ '' already exists in the index''))
      else
        (let lvl = min random_level (ml_max g);
             init = init_layers node_id [0..<Suc lvl] (layers g, []);
             g' = g\<lparr>nodes := AList.update node_id vector (nodes g),
                    layers := fst init,
                    neighbors := AList.update node_id (snd init) (neighbors g)\<rparr>
         in case entry_point g' of
              None \<Rightarrow> Inr (g'\<lparr>entry_point := Some node_id, max_layer := lvl\<rparr>)
            | Some ep \<Rightarrow>
                (case map_of (nodes g') ep of
                   None \<Rightarrow> Inl (KeyError ep)
                 | Some ep_vec \<Rightarrow>
                     (case insert_layers metric node_id vector lvl (rev [0..<Suc (max_layer g')])
                             (g', ep, metric vector ep_vec) of
                        Inl e \<Rightarrow> Inl e
                      | Inr g'' \<Rightarrow>
                          Inr (if lvl > max_layer g''
                               then g''\<lparr>max_layer := lvl, entry_point := Some node_id\<rparr>
                               else g'')))))"

fun insert_all :: "('v \<Rightarrow> 'v \<Rightarrow> 'd::linorder) \<Rightarrow> 'v HNSWGraph \<Rightarrow> (string \<times> 'v \<times> nat) list
    \<Rightarrow> error + 'v HNSWGraph" where
  "insert_all metric g [] = Inr g"
| "insert_all metric g ((node_id, vector, random_level) # rest) =
     (case HNSWGraph_insert metric random_level g node_id vector of
        Inl e \<Rightarrow> Inl e
      | Inr g' \<Rightarrow> insert_all metric g' rest)"

text \<open>
  metrics.py, \<open>manhattan_distance\<close>: \<open>np.sum(np.abs(x - y))\<close>, for two vectors of one
  length. \<open>insert_all\<close> runs a sequence of inserts, each with its id, vector and drawn
  level, and stops at the first exception.
\<close>

definition manhattan_distance :: "('a::linordered_idom) list \<Rightarrow> 'a list \<Rightarrow> 'a" where
  "manhattan_distance x y = sum_list (map2 (\<lambda>a b. \<bar>a - b\<bar>) x y)"

text \<open>
  What the search relies on: the entry point, and every node listed in a neighbour set,
  is a key of both \<open>nodes\<close> and \<open>neighbors\<close>.
\<close>

definition known :: "'v HNSWGraph \<Rightarrow> string \<Rightarrow> bool" where
  "known g node_id = (node_id \<in> fst ` set (nodes g) \<and> node_id \<in> fst ` set (neighbors g))"

definition wf_graph :: "'v HNSWGraph \<Rightarrow> bool" where
  "wf_graph g =
     ((case entry_point g of None \<Rightarrow> True | Some ep \<Rightarrow> known g ep)
      \<and> list_all (\<lambda>(node_id, by_layer). list_all (\<lambda>(l, nbrs). list_all (known g) nbrs) by_layer)
           (neighbors g))"

text \<open>
  What holds of \<open>visited\<close>, \<open>candidates\<close> and \<open>results\<close> throughout
  \<open>_search_layer\<close>: \<open>results\<close> is not empty, and both heaps hold known nodes only.
\<close>

definition search_inv :: "'v HNSWGraph \<Rightarrow> string list \<times> 'd SearchResult list \<times> 'd SearchResult list \<Rightarrow> bool" where
  "search_inv g st =
     (case st of (V, C, R) \<Rightarrow>
        R \<noteq> [] \<and> (\<forall>r\<in>set C. known g (fst r)) \<and> (\<forall>r\<in>set R. known g (fst r)))"

text \<open>
  Two notions for the proofs about \<open>insert\<close>: every listed neighbour lies in a set
  \<open>K\<close> of ids, and two graphs with the same nodes, neighbour keys, entry point and
  \<open>ef_construction\<close>.
\<close>

definition nbrs_ok :: "string set \<Rightarrow> (string \<times> (nat \<times> string list) list) list \<Rightarrow> bool" where
  "nbrs_ok K nbrs = (\<forall>(a, by_layer)\<in>set nbrs. \<forall>(l, s)\<in>set by_layer. \<forall>n\<in>set s. n \<in> K)"

definition same_nodes :: "'v HNSWGraph \<Rightarrow> 'v HNSWGraph \<Rightarrow> bool" where
  "same_nodes g g' =
     (nodes g' = nodes g \<and> fst ` set (neighbors g') = fst ` set (neighbors g)
      \<and> entry_point g' = entry_point g \<and> ef_construction g' = ef_construction g)"

section \<open>Segment creation\<close>

lemma length_le_bytes: "length (le_bytes k n) = k"
  by (induction k arbitrary: n) auto

lemma length_struct_pack_Q: "length (struct_pack_Q n) = 8"
  by (simp add: struct_pack_Q_def length_le_bytes)

lemma map_of_update_same: "map_of (AList.update k v al) k = Some v"
  by (simp add: update_conv')

text \<open>
  C8, as the code has it. A freshly created segment holds the eight header bytes, so its
  logical size is 8 and the first append returns offset 8 (for every file system, every
  path with a directory part and every payload).
\<close>

theorem SegmentFile_create_size_and_first_append:
  "fst p \<noteq> [] \<Longrightarrow>
     (\<exists>fs' seg. SegmentFile_init fs p True = Inr (fs', seg) \<and> seg_size seg = 8
        \<and> map_of fs' p = Some (struct_pack_Q 0))
     \<and> first_append_offset fs p data = Inr 8"
  by (simp add: SegmentFile_init_def first_append_offset_def SegmentFile_append_def Let_def
      length_struct_pack_Q map_of_update_same)

theorem SegmentFile_create_size_and_first_append_witness:
  "fst (''db'', ''segment_000000.db'') \<noteq> []
   \<and> first_append_offset [] (''db'', ''segment_000000.db'') ''abc'' = Inr 8"
  using SegmentFile_create_size_and_first_append [of "(''db'', ''segment_000000.db'')" "[]" "''abc''"]
  by simp

text \<open>
  C8, as the claim states it, fails: on an empty file system, the first append on the new
  segment \<open>db/segment_000000.db\<close> does not return offset 0.
\<close>

theorem first_append_offset_not_zero:
  "first_append_offset [] (''db'', ''segment_000000.db'') ''abc'' \<noteq> Inr 0"
  by (simp add: SegmentFile_init_def first_append_offset_def SegmentFile_append_def Let_def
      length_struct_pack_Q map_of_update_same)

section \<open>Reading an LSM tree\<close>

lemma probe_tables_append:
  "probe_tables pf fs (xs @ ys) key =
     (case probe_tables pf fs xs key of Inl e \<Rightarrow> Inl e
      | Inr v \<Rightarrow> if v \<noteq> JNull then Inr v else probe_tables pf fs ys key)"
  by (induction xs) (auto split: sum.splits)

lemma probe_tables_absent:
  "\<forall>t\<in>set ts. SSTable_get pf fs t key = Inr JNull \<Longrightarrow> probe_tables pf fs ts key = Inr JNull"
  by (induction ts) auto

lemma SSTable_get_absent: "map_of (index t) key = None \<Longrightarrow> SSTable_get pf fs t key = Inr JNull"
  by (simp add: SSTable_get_def)

lemma load_tables_index:
  "load_tables base lv names = Inr ts \<Longrightarrow> \<forall>t\<in>set ts. index t = []"
  by (induction names arbitrary: ts) (auto simp: SSTable_init_def split: sum.splits)

text \<open>
  The loop over the tables of a level, taken alone: a table that stores \<open>null\<close> for the
  key is passed over like a table without the key.
\<close>

lemma probe_tables_skips_stored_null:
  assumes "\<forall>u\<in>set newer. map_of (index u) key = None"
    and "SSTable_get pf fs t key = Inr JNull"
  shows "probe_tables pf fs (newer @ t # older) key = probe_tables pf fs older key"
proof -
  have "probe_tables pf fs newer key = Inr JNull"
    using assms(1) by (intro probe_tables_absent) (simp add: SSTable_get_absent)
  then show ?thesis using assms(2) by (simp add: probe_tables_append)
qed

text \<open>The constructor of the tree raises on every directory.\<close>

lemma LSMTree_init_raises: "LSMTree_init fs base = Inl (AttributeError ''max_level'')"
  by (simp add: LSMTree_init_def load_existing_tables_def)

text \<open>
  C2. The only code that reopens an SSTable is \<open>_load_existing_tables\<close>, called by the
  tree's constructor. After any map \<open>data\<close> is written to a table, opening the tree on
  the directory raises AttributeError (\<open>max_level\<close>); and the tables that the loop of
  \<open>_load_existing_tables\<close> builds for a level from the files of the directory, with
  \<open>SSTable(base_path, level, table_id)\<close>, have the empty index, no code scanning the
  file to rebuild it: such a table answers \<open>None\<close> for every key, and so does the table
  built again by the constructor for the level and id written. The round trip of the
  claim fails for every key of \<open>data\<close>.
\<close>

theorem written_table_reopened_finds_nothing:
  assumes "SSTable_write float_repr fs (SSTable_init base lv tid) data = (fs', t)"
    and "load_tables base l (glob fs' base l) = Inr ts"
  shows "LSMTree_init fs' base = Inl (AttributeError ''max_level'')
         \<and> SSTable_get parse_float fs' (SSTable_init base lv tid) k = Inr JNull
         \<and> (\<forall>u\<in>set ts. SSTable_get parse_float fs' u k = Inr JNull)"
  using load_tables_index [OF assms(2)]
  by (simp add: LSMTree_init_raises SSTable_get_absent SSTable_init_def)

text \<open>
  The map \<open>{"a": 1}\<close> is written to the table \<open>db/L0-1.sst\<close>; the writing object reads
  the value back; opening the tree on \<open>db\<close> raises, and the table that the loading loop
  builds for the file answers \<open>None\<close> for \<open>"a"\<close>.
\<close>

theorem written_table_reopened_finds_nothing_witness:
  "\<forall>float_repr parse_float.
   SSTable_write float_repr [] (SSTable_init ''db'' 0 1) [(''a'', JInt 1)]
     = ([((''db'', ''L0-1.sst''), json_dumps float_repr (JObj [(''a'', JInt 1)]) @ [newline])],
        \<lparr>base_path = ''db'', level = 0, table_id = 1, index = [(''a'', 0)]\<rparr>)
   \<and> SSTable_get parse_float
        [((''db'', ''L0-1.sst''), json_dumps float_repr (JObj [(''a'', JInt 1)]) @ [newline])]
        \<lparr>base_path = ''db'', level = 0, table_id = 1, index = [(''a'', 0)]\<rparr> ''a'' = Inr (JInt 1)
   \<and> load_tables ''db'' 0
        (glob [((''db'', ''L0-1.sst''), json_dumps float_repr (JObj [(''a'', JInt 1)]) @ [newline])]
           ''db'' 0)
       = Inr [SSTable_init ''db'' 0 1]
   \<and> SSTable_get parse_float
        [((''db'', ''L0-1.sst''), json_dumps float_repr (JObj [(''a'', JInt 1)]) @ [newline])]
        (SSTable_init ''db'' 0 1) ''a'' = Inr JNull
   \<and> LSMTree_init
        [((''db'', ''L0-1.sst''), json_dumps float_repr (JObj [(''a'', JInt 1)]) @ [newline])] ''db''
       = Inl (AttributeError ''max_level'')"
proof (intro allI)
  fix float_repr :: "float64 \<Rightarrow> string" and parse_float :: "string \<Rightarrow> float64"
  let ?fs = "[((''db'', ''L0-1.sst''), json_dumps float_repr (JObj [(''a'', JInt 1)]) @ [newline])]"
  let ?t = "\<lparr>base_path = ''db'', level = 0, table_id = 1, index = [(''a'', 0)]\<rparr>"
  have 0: "SSTable_write float_repr [] (SSTable_init ''db'' 0 1) [(''a'', JInt 1)] = (?fs, ?t)"
    by code_simp
  have 1: "SSTable_get parse_float ?fs ?t ''a'' = Inr (JInt 1)"
    by code_simp
  have 2: "load_tables ''db'' 0 (glob ?fs ''db'' 0) = Inr [SSTable_init ''db'' 0 1]"
    by code_simp
  from written_table_reopened_finds_nothing [OF 0 2, of parse_float "''a''"]
  have "LSMTree_init ?fs ''db'' = Inl (AttributeError ''max_level'')
        \<and> SSTable_get parse_float ?fs (SSTable_init ''db'' 0 1) ''a'' = Inr JNull" by simp
  with 0 1 2 show "SSTable_write float_repr [] (SSTable_init ''db'' 0 1) [(''a'', JInt 1)] = (?fs, ?t)
   \<and> SSTable_get parse_float ?fs ?t ''a'' = Inr (JInt 1)
   \<and> load_tables ''db'' 0 (glob ?fs ''db'' 0) = Inr [SSTable_init ''db'' 0 1]
   \<and> SSTable_get parse_float ?fs (SSTable_init ''db'' 0 1) ''a'' = Inr JNull
   \<and> LSMTree_init ?fs ''db'' = Inl (AttributeError ''max_level'')" by blast
qed

text \<open>
  C3. \<open>_maybe_flush\<close> appends the rotated memtable, so the later element of
  \<open>immutable_memtables\<close> is the newer one, and \<open>get\<close> walks the list from its head:
  with \<open>{"k": 1}\<close> rotated before \<open>{"k": 2}\<close>, \<open>get("k")\<close> returns 1, the older value,
  where the claim says the newer one is returned.
\<close>

theorem get_prefers_older_immutable_memtable:
  "LSMTree_get parse_float []
     \<lparr>lsm_base_path = ''db'', max_level = None, memtable = [],
      immutable_memtables = [[(''k'', JInt 1)], [(''k'', JInt 2)]],
      levels = [], memtable_size_limit = 1000\<rparr> ''k'' = Inr (JInt 1)"
  by (simp add: LSMTree_get_def)

text \<open>
  C4. Whenever level \<open>L\<close> holds more than \<open>4^L\<close> tables, \<open>_maybe_compact_level\<close> calls
  \<open>_compact_level\<close>, which raises AttributeError on \<open>table.data\<close> and changes
  nothing: no table is merged, no file is removed, and the level keeps all its tables.
\<close>

theorem compaction_raises_AttributeError:
  "4 ^ lv < length (levels_at lsm lv) \<Longrightarrow>
     maybe_compact_level fs lsm lv = (Some (AttributeError ''data''), fs, lsm)"
  by (auto simp: maybe_compact_level_def compact_level_def Let_def)

theorem compaction_raises_AttributeError_witness:
  "4 ^ 0 < length (levels_at
       \<lparr>lsm_base_path = ''db'', max_level = None, memtable = [], immutable_memtables = [],
        levels = [(0, [SSTable_init ''db'' 0 1, SSTable_init ''db'' 0 2])],
        memtable_size_limit = 1000\<rparr> 0)
   \<and> maybe_compact_level []
       \<lparr>lsm_base_path = ''db'', max_level = None, memtable = [], immutable_memtables = [],
        levels = [(0, [SSTable_init ''db'' 0 1, SSTable_init ''db'' 0 2])],
        memtable_size_limit = 1000\<rparr> 0
     = (Some (AttributeError ''data''), [],
       \<lparr>lsm_base_path = ''db'', max_level = None, memtable = [], immutable_memtables = [],
        levels = [(0, [SSTable_init ''db'' 0 1, SSTable_init ''db'' 0 2])],
        memtable_size_limit = 1000\<rparr>)"
proof -
  let ?lsm = "\<lparr>lsm_base_path = ''db'', max_level = None, memtable = [], immutable_memtables = [],
        levels = [(0, [SSTable_init ''db'' 0 1, SSTable_init ''db'' 0 2])],
        memtable_size_limit = 1000\<rparr>"
  have h: "4 ^ 0 < length (levels_at ?lsm 0)" by (simp add: levels_at_def)
  from compaction_raises_AttributeError [OF h] h show ?thesis by blast
qed

text \<open>
  C10. \<open>get\<close> never reaches the SSTables. When the key is in no memtable, the next thing
  \<open>get\<close> evaluates is \<open>range(self.max_level)\<close>, and the attribute is absent: the call
  raises AttributeError, whatever the tables hold. A key whose values reside only in
  SSTables, the newest of them \<open>null\<close>, gets neither the older value nor \<open>None\<close>.
\<close>

theorem LSMTree_get_raises_before_tables:
  assumes "max_level lsm = None"
    and "map_of (memtable lsm) key = None"
    and "probe_immutable (immutable_memtables lsm) key = None"
  shows "LSMTree_get parse_float fs lsm key = Inl (AttributeError ''max_level'')"
  using assms by (simp add: LSMTree_get_def)

text \<open>
  Two level-0 tables written by \<open>write\<close>: the older holds \<open>{"k": 5}\<close>, the newer
  \<open>{"k": null}\<close>. The newer table's \<open>get\<close> gives \<open>None\<close> and the older one's gives 5,
  the value the claim expects from the tree; the tree's \<open>get("k")\<close> raises.
\<close>

theorem LSMTree_get_raises_before_tables_witness:
  "\<forall>float_repr parse_float.
   SSTable_write float_repr
        (fst (SSTable_write float_repr [] (SSTable_init ''db'' 0 1) [(''k'', JInt 5)]))
        (SSTable_init ''db'' 0 2) [(''k'', JNull)]
     = ([((''db'', ''L0-1.sst''), json_dumps float_repr (JObj [(''k'', JInt 5)]) @ [newline]),
         ((''db'', ''L0-2.sst''), json_dumps float_repr (JObj [(''k'', JNull)]) @ [newline])],
        \<lparr>base_path = ''db'', level = 0, table_id = 2, index = [(''k'', 0)]\<rparr>)
   \<and> SSTable_get parse_float
        [((''db'', ''L0-1.sst''), json_dumps float_repr (JObj [(''k'', JInt 5)]) @ [newline]),
         ((''db'', ''L0-2.sst''), json_dumps float_repr (JObj [(''k'', JNull)]) @ [newline])]
        \<lparr>base_path = ''db'', level = 0, table_id = 2, index = [(''k'', 0)]\<rparr> ''k'' = Inr JNull
   \<and> SSTable_get parse_float
        [((''db'', ''L0-1.sst''), json_dumps float_repr (JObj [(''k'', JInt 5)]) @ [newline]),
         ((''db'', ''L0-2.sst''), json_dumps float_repr (JObj [(''k'', JNull)]) @ [newline])]
        \<lparr>base_path = ''db'', level = 0, table_id = 1, index = [(''k'', 0)]\<rparr> ''k'' = Inr (JInt 5)
   \<and> LSMTree_get parse_float
        [((''db'', ''L0-1.sst''), json_dumps float_repr (JObj [(''k'', JInt 5)]) @ [newline]),
         ((''db'', ''L0-2.sst''), json_dumps float_repr (JObj [(''k'', JNull)]) @ [newline])]
        \<lparr>lsm_base_path = ''db'', max_level = None, memtable = [], immutable_memtables = [],
         levels = [(0, [\<lparr>base_path = ''db'', level = 0, table_id = 1, index = [(''k'', 0)]\<rparr>,
                        \<lparr>base_path = ''db'', level = 0, table_id = 2, index = [(''k'', 0)]\<rparr>])],
         memtable_size_limit = 1000\<rparr> ''k'' = Inl (AttributeError ''max_level'')"
proof (intro allI)
  fix float_repr :: "float64 \<Rightarrow> string" and parse_float :: "string \<Rightarrow> float64"
  let ?t1 = "\<lparr>base_path = ''db'', level = 0, table_id = 1, index = [(''k'', 0)]\<rparr>"
  let ?t2 = "\<lparr>base_path = ''db'', level = 0, table_id = 2, index = [(''k'', 0)]\<rparr>"
  let ?fs = "[((''db'', ''L0-1.sst''), json_dumps float_repr (JObj [(''k'', JInt 5)]) @ [newline]),
              ((''db'', ''L0-2.sst''), json_dumps float_repr (JObj [(''k'', JNull)]) @ [newline])]"
  let ?lsm = "\<lparr>lsm_base_path = ''db'', max_level = None, memtable = [], immutable_memtables = [],
         levels = [(0, [?t1, ?t2])], memtable_size_limit = 1000\<rparr>"
  have written: "SSTable_write float_repr
        (fst (SSTable_write float_repr [] (SSTable_init ''db'' 0 1) [(''k'', JInt 5)]))
        (SSTable_init ''db'' 0 2) [(''k'', JNull)] = (?fs, ?t2)"
    by code_simp
  have null: "SSTable_get parse_float ?fs ?t2 ''k'' = Inr JNull"
    by code_simp
  have older: "SSTable_get parse_float ?fs ?t1 ''k'' = Inr (JInt 5)"
    by code_simp
  have "LSMTree_get parse_float ?fs ?lsm ''k'' = Inl (AttributeError ''max_level'')"
    using LSMTree_get_raises_before_tables [of ?lsm "''k''" parse_float ?fs] by simp
  with written null older show "SSTable_write float_repr
        (fst (SSTable_write float_repr [] (SSTable_init ''db'' 0 1) [(''k'', JInt 5)]))
        (SSTable_init ''db'' 0 2) [(''k'', JNull)] = (?fs, ?t2)
   \<and> SSTable_get parse_float ?fs ?t2 ''k'' = Inr JNull
   \<and> SSTable_get parse_float ?fs ?t1 ''k'' = Inr (JInt 5)
   \<and> LSMTree_get parse_float ?fs ?lsm ''k'' = Inl (AttributeError ''max_level'')" by blast
qed

section \<open>Training the compressor\<close>

lemma length_foldl_map2:
  "\<forall>r\<in>set rs. length r = length a \<Longrightarrow> length (foldl (\<lambda>acc row. map2 f acc row) a rs) = length a"
  by (induction rs arbitrary: a) auto

lemma fit_codebooks_ok:
  assumes "\<forall>b X. length X = m \<longrightarrow> (\<exists>cs. kmeans_fit (n_clusters c) b X = Inr cs)"
    and "length normalized = m"
  shows "fst (fit_codebooks kmeans_fit c n_rows normalized idxs books) = None"
  using assms
proof (induction idxs arbitrary: books)
  case Nil
  then show ?case by simp
next
  case (Cons i idxs)
  let ?sub = "map (\<lambda>r. take (i * subvector_dim c + subvector_dim c - i * subvector_dim c)
                        (drop (i * subvector_dim c) r)) normalized"
  have "length ?sub = m" using Cons.prems(2) by simp
  with Cons.prems(1) obtain cs where "kmeans_fit (n_clusters c) (min 1000 n_rows) ?sub = Inr cs"
    by blast
  then show ?case using Cons by (simp add: Let_def)
qed

lemma normalize_vectors_fresh:
  assumes "min_vals c = None" and "rows \<noteq> []" and "\<forall>r\<in>set rows. length r = d"
  shows "\<exists>c' res. normalize_vectors c rows = (None, c', res) \<and> length res = length rows
           \<and> n_clusters c' = n_clusters c"
proof -
  obtain r rs where rows: "rows = r # rs" using assms(2) by (cases rows) auto
  have lr: "length r = d" and lrs: "\<forall>x\<in>set rs. length x = length r"
    using assms(3) rows by auto
  define mins where "mins = foldl (\<lambda>acc row. map2 min acc row) r rs"
  define maxs where "maxs = foldl (\<lambda>acc row. map2 max acc row) r rs"
  have lm: "length mins = d" "length maxs = d"
    using length_foldl_map2 [OF lrs] lr by (simp_all add: mins_def maxs_def)
  have mn: "np_min_axis0 rows = Inr mins" and mx: "np_max_axis0 rows = Inr maxs"
    by (simp_all add: np_min_axis0_def np_max_axis0_def rows mins_def maxs_def)
  have "list_all (\<lambda>r. length r = length mins) rows"
    using assms(3) lm by (simp add: list_all_iff)
  then obtain res where nr: "normalize_rows mins maxs rows = Inr res" and "length res = length rows"
    using lm by (simp add: normalize_rows_def Let_def)
  then show ?thesis using assms(1) mn mx by (simp add: normalize_vectors_def)
qed

lemma VectorCompressor_init_fresh:
  assumes "VectorCompressor_init d n_sub n = Inr c"
  shows "n_clusters c = n \<and> min_vals c = None"
  using assms
  by (auto simp: VectorCompressor_init_def split: sum.splits if_splits)

lemma train_enough:
  assumes n: "n_clusters c = n" and fresh: "min_vals c = None"
    and pos: "1 \<le> n"
    and rows: "\<forall>v\<in>set vectors. length v = d"
    and fit: "\<forall>b X. n \<le> length X \<longrightarrow> (\<exists>cs. kmeans_fit n b X = Inr cs)"
    and ge: "n \<le> length vectors"
  shows "\<exists>c'. train kmeans_fit c vectors = (None, c') \<and> is_trained c'"
proof -
  have ne: "vectors \<noteq> []" using ge pos by auto
  have "list_all (\<lambda>r. length r = length (hd vectors)) vectors"
    using rows ne by (simp add: list_all_iff)
  then have arr: "np_array vectors = Inr vectors" by (simp add: np_array_def)
  from normalize_vectors_fresh [OF fresh ne rows] obtain c' res where
    nv: "normalize_vectors c vectors = (None, c', res)" and lres: "length res = length vectors"
    and nc: "n_clusters c' = n" using n by auto
  have "\<forall>b X. length X = length vectors \<longrightarrow> (\<exists>cs. kmeans_fit (n_clusters c') b X = Inr cs)"
    using fit ge nc by simp
  from fit_codebooks_ok [of "length vectors" kmeans_fit c' res, OF this lres]
  have "fst (fit_codebooks kmeans_fit c' (length vectors) res [0..<n_subvectors c'] []) = None" .
  then obtain books where
    fc: "fit_codebooks kmeans_fit c' (length vectors) res [0..<n_subvectors c'] [] = (None, books)"
    by (cases "fit_codebooks kmeans_fit c' (length vectors) res [0..<n_subvectors c'] []") auto
  have "train kmeans_fit c vectors = (None, c'\<lparr>codebooks := Some books, is_trained := True\<rparr>)"
    using ge n arr nv fc by (simp add: train_def)
  then show ?thesis by simp
qed

text \<open>
  C9. Let \<open>c\<close> be a compressor as its constructor builds it, with \<open>n\<close> clusters (the
  store's constructor asks for 8), let the training vectors have the compressor's
  dimension, and let the k-means fit succeed whenever it is given at least \<open>n\<close> samples.
  Then \<open>VectorCompressor.train\<close> raises the "Need at least n training vectors"
  ValueError exactly when fewer than \<open>n\<close> vectors are supplied, and it succeeds, leaving
  the compressor trained, exactly when at least \<open>n\<close> are; so \<open>n\<close> vectors succeed and
  \<open>n - 1\<close> fail. \<open>train_compression\<close> of a store that holds \<open>c\<close> does the same.
\<close>

theorem train_compression_threshold:
  assumes init: "VectorCompressor_init d n_sub n = Inr c"
    and pos: "1 \<le> n"
    and rows: "\<forall>v\<in>set vectors. length v = d"
    and fit: "\<forall>b X. n \<le> length X \<longrightarrow> (\<exists>cs. kmeans_fit n b X = Inr cs)"
    and st: "compressor st = c"
  shows "n_clusters c = n
    \<and> (length vectors < n \<longleftrightarrow> fst (train kmeans_fit c vectors) = Some (need_at_least n))
    \<and> (n \<le> length vectors \<longleftrightarrow> fst (train kmeans_fit c vectors) = None)
    \<and> (n \<le> length vectors \<longrightarrow> is_trained (snd (train kmeans_fit c vectors)))
    \<and> (length vectors < n \<longleftrightarrow> fst (train_compression kmeans_fit st vectors) = Some (need_at_least n))
    \<and> (n \<le> length vectors \<longleftrightarrow> fst (train_compression kmeans_fit st vectors) = None)
    \<and> (n \<le> length vectors \<longrightarrow> is_trained (compressor (snd (train_compression kmeans_fit st vectors))))"
proof -
  from VectorCompressor_init_fresh [OF init]
  have n: "n_clusters c = n" and fresh: "min_vals c = None" by simp_all
  show ?thesis
  proof (cases "length vectors < n")
    case True
    then have "train kmeans_fit c vectors = (Some (need_at_least n), c)"
      using n by (simp add: train_def)
    moreover from True have "train_compression kmeans_fit st vectors = (Some (need_at_least n), st)"
      using n st by (simp add: train_compression_def)
    ultimately show ?thesis using True n by simp
  next
    case False
    then have ge: "n \<le> length vectors" by simp
    from train_enough [where kmeans_fit = kmeans_fit, OF n fresh pos rows fit ge] obtain c' where
      t: "train kmeans_fit c vectors = (None, c')" and tr: "is_trained c'" by blast
    have "train_compression kmeans_fit st vectors = (None, st\<lparr>compressor := c'\<rparr>)"
      using ge n st t by (simp add: train_compression_def)
    with t tr ge n show ?thesis by simp
  qed
qed

text \<open>
  The compressor of dimension 2 with 8 clusters, as \<open>VectorCompressor(2, n_clusters=8)\<close>
  builds it, and a store record that holds it; the fit returns its first \<open>n_clusters\<close>
  samples as centres. Training with 8 vectors succeeds, training with 7 raises.
\<close>

theorem train_compression_threshold_witness:
  "VectorCompressor_init 2 None 8
     = Inr \<lparr>c_dimension = 2, n_subvectors = 2, subvector_dim = 1, n_clusters = 8,
            codebooks = None, is_trained = False, min_vals = None,
            max_vals = (None :: rat list option)\<rparr>
   \<and> fst (train (\<lambda>n b X. if n \<le> length X then Inr (take n X) else Inl (ValueError ''n_samples < n_clusters''))
        \<lparr>c_dimension = 2, n_subvectors = 2, subvector_dim = 1, n_clusters = 8,
         codebooks = None, is_trained = False, min_vals = None,
         max_vals = (None :: rat list option)\<rparr>
        [[0, 1], [1, 1], [2, 1], [3, 1], [4, 1], [5, 1], [6, 1], [7, 1]]) = None
   \<and> fst (train (\<lambda>n b X. if n \<le> length X then Inr (take n X) else Inl (ValueError ''n_samples < n_clusters''))
        \<lparr>c_dimension = 2, n_subvectors = 2, subvector_dim = 1, n_clusters = 8,
         codebooks = None, is_trained = False, min_vals = None,
         max_vals = (None :: rat list option)\<rparr>
        [[0, 1], [1, 1], [2, 1], [3, 1], [4, 1], [5, 1], [6, 1]]) = Some (need_at_least 8)
   \<and> fst (train_compression (\<lambda>n b X. if n \<le> length X then Inr (take n X) else Inl (ValueError ''n_samples < n_clusters''))
        \<lparr>dimension = 2, storage_path = ''db'', training_threshold = 100, training_vectors = [],
         active_segment = Some \<lparr>path = (''db'', ''segment_000000.db''), seg_size = 8, closed = False\<rparr>,
         lsm_tree = \<lparr>lsm_base_path = ''db'', max_level = None, memtable = [], immutable_memtables = [],
                     levels = [], memtable_size_limit = 1000\<rparr>,
         compressor = \<lparr>c_dimension = 2, n_subvectors = 2, subvector_dim = 1, n_clusters = 8,
                       codebooks = None, is_trained = False, min_vals = None,
                       max_vals = (None :: rat list option)\<rparr>\<rparr>
        [[0, 1], [1, 1], [2, 1], [3, 1], [4, 1], [5, 1], [6, 1], [7, 1]]) = None
   \<and> fst (train_compression (\<lambda>n b X. if n \<le> length X then Inr (take n X) else Inl (ValueError ''n_samples < n_clusters''))
        \<lparr>dimension = 2, storage_path = ''db'', training_threshold = 100, training_vectors = [],
         active_segment = Some \<lparr>path = (''db'', ''segment_000000.db''), seg_size = 8, closed = False\<rparr>,
         lsm_tree = \<lparr>lsm_base_path = ''db'', max_level = None, memtable = [], immutable_memtables = [],
                     levels = [], memtable_size_limit = 1000\<rparr>,
         compressor = \<lparr>c_dimension = 2, n_subvectors = 2, subvector_dim = 1, n_clusters = 8,
                       codebooks = None, is_trained = False, min_vals = None,
                       max_vals = (None :: rat list option)\<rparr>\<rparr>
        [[0, 1], [1, 1], [2, 1], [3, 1], [4, 1], [5, 1], [6, 1]]) = Some (need_at_least 8)"
proof -
  let ?km = "\<lambda>(n::nat) (b::nat) (X::rat list list).
      if n \<le> length X then Inr (take n X) else Inl (ValueError ''n_samples < n_clusters'')"
  let ?c = "\<lparr>c_dimension = 2, n_subvectors = 2, subvector_dim = 1, n_clusters = 8,
             codebooks = None, is_trained = False, min_vals = None,
             max_vals = (None :: rat list option)\<rparr>"
  let ?st = "\<lparr>dimension = 2, storage_path = ''db'', training_threshold = 100, training_vectors = [],
         active_segment = Some \<lparr>path = (''db'', ''segment_000000.db''), seg_size = 8, closed = False\<rparr>,
         lsm_tree = \<lparr>lsm_base_path = ''db'', max_level = None, memtable = [], immutable_memtables = [],
                     levels = [], memtable_size_limit = 1000\<rparr>,
         compressor = ?c\<rparr>"
  let ?v8 = "[[0, 1], [1, 1], [2, 1], [3, 1], [4, 1], [5, 1], [6, 1], [7, 1 :: rat]]"
  let ?v7 = "[[0, 1], [1, 1], [2, 1], [3, 1], [4, 1], [5, 1], [6, 1 :: rat]]"
  have init: "VectorCompressor_init 2 None 8 = Inr ?c"
    by code_simp
  have pos: "1 \<le> (8 :: nat)" by simp
  have fit: "\<forall>b X. 8 \<le> length X \<longrightarrow> (\<exists>cs. ?km 8 b X = Inr cs)"
    by simp
  have r8: "\<forall>v\<in>set ?v8. length v = 2" and r7: "\<forall>v\<in>set ?v7. length v = 2"
    by simp_all
  have st: "compressor ?st = ?c" by simp
  have "fst (train ?km ?c ?v8) = None \<and> fst (train_compression ?km ?st ?v8) = None"
    using train_compression_threshold [where kmeans_fit = ?km, OF init pos r8 fit st] by simp
  moreover have "fst (train ?km ?c ?v7) = Some (need_at_least 8)
      \<and> fst (train_compression ?km ?st ?v7) = Some (need_at_least 8)"
    using train_compression_threshold [where kmeans_fit = ?km, OF init pos r7 fit st] by simp
  ultimately show ?thesis using init by simp
qed

section \<open>Storing and fetching vectors\<close>

text \<open>The constructor of the store raises on every directory.\<close>

lemma VectorStorage_init_raises:
  "VectorStorage_init fs d base thr = Inl (AttributeError ''max_level'')"
  by (simp add: VectorStorage_init_def LSMTree_init_raises)

text \<open>
  C1. The store's constructor raises AttributeError (\<open>max_level\<close>), so no store is ever
  built. On every store state, \<open>store_vector\<close> raises AttributeError for every id and
  every vector (of the store's dimension or not), on \<open>write\<close> when there is an active
  segment and on \<open>create\<close> when there is none, and leaves the files and the store as
  they were; and \<open>get_vector\<close> on an id that the tree's memtables do not hold raises
  AttributeError as well, the tree's \<open>get\<close> being called outside \<open>try\<close>. No vector is
  ever stored or returned, so the round trip of the claim never happens.
\<close>

theorem store_vector_and_get_vector_raise:
  assumes "max_level (lsm_tree st) = None"
    and "map_of (memtable (lsm_tree st)) vid = None"
    and "probe_immutable (immutable_memtables (lsm_tree st)) vid = None"
  shows "(VectorStorage_init fs0 d base thr :: error + filesystem \<times> 'a VectorStorage)
           = Inl (AttributeError ''max_level'')
         \<and> store_vector pack fs st vid v
             = (Some (AttributeError (if active_segment st = None then ''create'' else ''write'')),
                fs, st)
         \<and> get_vector unpack parse_float fs (st :: ('a::linordered_field) VectorStorage) vid
             = Inl (AttributeError ''max_level'')"
  using assms
  by (simp add: VectorStorage_init_raises store_vector_def Let_def get_vector_def LSMTree_get_def
           split: option.splits)

text \<open>
  The constructor on the empty directory \<open>db\<close>; and a store record of dimension 2 with
  an active segment and an empty tree, with the vector \<open>[1, 2]\<close>.
\<close>

theorem store_vector_and_get_vector_raise_witness:
  "\<forall>pack unpack parse_float.
     (VectorStorage_init [] 2 ''db'' 100 :: error + filesystem \<times> rat VectorStorage)
        = Inl (AttributeError ''max_level'')
   \<and> store_vector pack [((''db'', ''segment_000000.db''), struct_pack_Q 0)]
        \<lparr>dimension = 2, storage_path = ''db'', training_threshold = 100, training_vectors = [],
         active_segment = Some \<lparr>path = (''db'', ''segment_000000.db''), seg_size = 8, closed = False\<rparr>,
         lsm_tree = \<lparr>lsm_base_path = ''db'', max_level = None, memtable = [], immutable_memtables = [],
                     levels = [], memtable_size_limit = 1000\<rparr>,
         compressor = \<lparr>c_dimension = 2, n_subvectors = 2, subvector_dim = 1, n_clusters = 8,
                       codebooks = None, is_trained = False, min_vals = None,
                       max_vals = (None :: rat list option)\<rparr>\<rparr> ''a'' [1, 2]
      = (Some (AttributeError ''write''), [((''db'', ''segment_000000.db''), struct_pack_Q 0)],
        \<lparr>dimension = 2, storage_path = ''db'', training_threshold = 100, training_vectors = [],
         active_segment = Some \<lparr>path = (''db'', ''segment_000000.db''), seg_size = 8, closed = False\<rparr>,
         lsm_tree = \<lparr>lsm_base_path = ''db'', max_level = None, memtable = [], immutable_memtables = [],
                     levels = [], memtable_size_limit = 1000\<rparr>,
         compressor = \<lparr>c_dimension = 2, n_subvectors = 2, subvector_dim = 1, n_clusters = 8,
                       codebooks = None, is_trained = False, min_vals = None,
                       max_vals = (None :: rat list option)\<rparr>\<rparr>)
   \<and> get_vector unpack parse_float [((''db'', ''segment_000000.db''), struct_pack_Q 0)]
        \<lparr>dimension = 2, storage_path = ''db'', training_threshold = 100, training_vectors = [],
         active_segment = Some \<lparr>path = (''db'', ''segment_000000.db''), seg_size = 8, closed = False\<rparr>,
         lsm_tree = \<lparr>lsm_base_path = ''db'', max_level = None, memtable = [], immutable_memtables = [],
                     levels = [], memtable_size_limit = 1000\<rparr>,
         compressor = \<lparr>c_dimension = 2, n_subvectors = 2, subvector_dim = 1, n_clusters = 8,
                       codebooks = None, is_trained = False, min_vals = None,
                       max_vals = (None :: rat list option)\<rparr>\<rparr> ''a''
      = Inl (AttributeError ''max_level'')"
proof (intro allI)
  fix pack :: "rat \<Rightarrow> string" and unpack :: "string \<Rightarrow> rat" and parse_float :: "string \<Rightarrow> float64"
  let ?st = "\<lparr>dimension = 2, storage_path = ''db'', training_threshold = 100, training_vectors = [],
         active_segment = Some \<lparr>path = (''db'', ''segment_000000.db''), seg_size = 8, closed = False\<rparr>,
         lsm_tree = \<lparr>lsm_base_path = ''db'', max_level = None, memtable = [], immutable_memtables = [],
                     levels = [], memtable_size_limit = 1000\<rparr>,
         compressor = \<lparr>c_dimension = 2, n_subvectors = 2, subvector_dim = 1, n_clusters = 8,
                       codebooks = None, is_trained = False, min_vals = None,
                       max_vals = (None :: rat list option)\<rparr>\<rparr>"
  let ?fs = "[((''db'', ''segment_000000.db''), struct_pack_Q 0)]"
  from store_vector_and_get_vector_raise
         [of ?st "''a''" "[]" 2 "''db''" 100 pack ?fs "[1, 2]" unpack parse_float]
  show "(VectorStorage_init [] 2 ''db'' 100 :: error + filesystem \<times> rat VectorStorage)
        = Inl (AttributeError ''max_level'')
   \<and> store_vector pack ?fs ?st ''a'' [1, 2] = (Some (AttributeError ''write''), ?fs, ?st)
   \<and> get_vector unpack parse_float ?fs ?st ''a'' = Inl (AttributeError ''max_level'')"
    by simp
qed

text \<open>
  C6. For a vector whose length is not the store's dimension, \<open>store_vector\<close> raises no
  ValueError at all: the vector is cut to the dimension, and the exception that leaves
  the method is the AttributeError of the missing \<open>write\<close> (or \<open>create\<close>).
\<close>

theorem store_vector_wrong_dimension:
  assumes "length v \<noteq> dimension st"
  shows "(\<forall>msg. fst (store_vector pack fs st vid v) \<noteq> Some (ValueError msg))
     \<and> (fst (store_vector pack fs st vid v) = Some (AttributeError ''write'')
        \<or> fst (store_vector pack fs st vid v) = Some (AttributeError ''create''))
     \<and> snd (store_vector pack fs st vid v) = (fs, st)"
  by (simp add: store_vector_def Let_def split: option.splits)

text \<open>A vector of length 3 for a store of dimension 2.\<close>

theorem store_vector_wrong_dimension_witness:
  "length [1, 2, 3 :: rat] \<noteq> dimension
        \<lparr>dimension = 2, storage_path = ''db'', training_threshold = 100, training_vectors = [],
         active_segment = Some \<lparr>path = (''db'', ''segment_000000.db''), seg_size = 8, closed = False\<rparr>,
         lsm_tree = \<lparr>lsm_base_path = ''db'', max_level = None, memtable = [], immutable_memtables = [],
                     levels = [], memtable_size_limit = 1000\<rparr>,
         compressor = \<lparr>c_dimension = 2, n_subvectors = 2, subvector_dim = 1, n_clusters = 8,
                       codebooks = None, is_trained = False, min_vals = None,
                       max_vals = (None :: rat list option)\<rparr>\<rparr>
   \<and> (\<forall>pack. fst (store_vector pack [((''db'', ''segment_000000.db''), struct_pack_Q 0)]
        \<lparr>dimension = 2, storage_path = ''db'', training_threshold = 100, training_vectors = [],
         active_segment = Some \<lparr>path = (''db'', ''segment_000000.db''), seg_size = 8, closed = False\<rparr>,
         lsm_tree = \<lparr>lsm_base_path = ''db'', max_level = None, memtable = [], immutable_memtables = [],
                     levels = [], memtable_size_limit = 1000\<rparr>,
         compressor = \<lparr>c_dimension = 2, n_subvectors = 2, subvector_dim = 1, n_clusters = 8,
                       codebooks = None, is_trained = False, min_vals = None,
                       max_vals = (None :: rat list option)\<rparr>\<rparr> ''invalid'' [1, 2, 3])
      = Some (AttributeError ''write''))"
proof -
  let ?st = "\<lparr>dimension = 2, storage_path = ''db'', training_threshold = 100, training_vectors = [],
         active_segment = Some \<lparr>path = (''db'', ''segment_000000.db''), seg_size = 8, closed = False\<rparr>,
         lsm_tree = \<lparr>lsm_base_path = ''db'', max_level = None, memtable = [], immutable_memtables = [],
                     levels = [], memtable_size_limit = 1000\<rparr>,
         compressor = \<lparr>c_dimension = 2, n_subvectors = 2, subvector_dim = 1, n_clusters = 8,
                       codebooks = None, is_trained = False, min_vals = None,
                       max_vals = (None :: rat list option)\<rparr>\<rparr>"
  have h: "length [1, 2, 3 :: rat] \<noteq> dimension ?st" by simp
  have "fst (store_vector pack [((''db'', ''segment_000000.db''), struct_pack_Q 0)] ?st ''invalid'' [1, 2, 3])
      \<noteq> Some (AttributeError ''create'')" for pack
    by (simp add: store_vector_def)
  with store_vector_wrong_dimension [OF h] h show ?thesis by blast
qed

section \<open>Searching the graph\<close>

lemma set_heappush: "set (heappush heap item) = insert item (set heap)"
proof -
  have "set_mset (mset (heappush heap item)) = set_mset (add_mset item (mset heap))"
    using heappush_mset [of heap item] by simp
  then show ?thesis by simp
qed

lemma length_heappush: "length (heappush heap item) = Suc (length heap)"
  using heappush_mset [of heap item] by simp

lemma heappop_set:
  assumes "heap \<noteq> []"
  shows "\<exists>x h'. heappop heap = Inr (x, h') \<and> set heap = insert x (set h') \<and> Suc (length h') = length heap"
proof -
  from heappop_mset [OF assms] obtain x h' where
    h: "heappop heap = Inr (x, h')" "mset heap = add_mset x (mset h')" "Suc (length h') = length heap"
    by blast
  from h(2) have "set_mset (mset heap) = set_mset (add_mset x (mset h'))" by simp
  then have "set heap = insert x (set h')" by simp
  with h show ?thesis by blast
qed

lemma visit_neighbors_inv:
  assumes "1 \<le> ef" and "\<forall>n\<in>set nbrs. known g n" and "search_inv g (V, C, R)"
  shows "\<exists>st. visit_neighbors metric (nodes g) query ef furthest nbrs (V, C, R) = Inr st \<and> search_inv g st"
  using assms(2,3)
proof (induction nbrs arbitrary: V C R)
  case Nil
  then show ?case by simp
next
  case (Cons n nbrs)
  from Cons.prems(1) have kn: "known g n" and rest: "\<forall>m\<in>set nbrs. known g m" by simp_all
  from Cons.prems(2) have R: "R \<noteq> []" and C: "\<forall>r\<in>set C. known g (fst r)"
    and RR: "\<forall>r\<in>set R. known g (fst r)" by (simp_all add: search_inv_def)
  show ?case
  proof (cases "n \<in> set V")
    case True
    with Cons.IH [OF rest Cons.prems(2)] show ?thesis by simp
  next
    case False
    from kn obtain vec where vec: "map_of (nodes g) n = Some vec"
      by (auto simp: known_def) (metis map_of_eq_None_iff not_Some_eq fst_conv image_eqI)
    let ?r = "(n, metric query vec)"
    show ?thesis
    proof (cases "length R < ef \<or> below (metric query vec) furthest")
      case admit: True
      let ?C' = "heappush C ?r" and ?R' = "heappush R ?r"
      have C': "\<forall>r\<in>set ?C'. known g (fst r)" using C kn by (simp add: set_heappush)
      have R': "\<forall>r\<in>set ?R'. known g (fst r)" using RR kn by (simp add: set_heappush)
      show ?thesis
      proof (cases "length ?R' > ef")
        case True
        have "?R' \<noteq> []" using length_heappush [of R ?r] by auto
        from heappop_set [OF this] obtain w R'' where
          pop: "heappop ?R' = Inr (w, R'')" "set ?R' = insert w (set R'')"
          "Suc (length R'') = length ?R'" by blast
        have "R'' \<noteq> []" using pop(3) True assms(1) by auto
        moreover have "\<forall>r\<in>set R''. known g (fst r)" using R' pop(2) by auto
        ultimately have "search_inv g (n # V, ?C', R'')" using C' by (simp add: search_inv_def)
        from Cons.IH [OF rest this] show ?thesis
          using False vec admit True pop(1) by (simp add: Let_def)
      next
        case no_pop: False
        have "?R' \<noteq> []" using length_heappush [of R ?r] by auto
        then have "search_inv g (n # V, ?C', ?R')" using C' R' by (simp add: search_inv_def)
        from Cons.IH [OF rest this] show ?thesis
          using False vec admit no_pop by (simp add: Let_def)
      qed
    next
      case skip: False
      have "search_inv g (n # V, C, R)" using R C RR by (simp add: search_inv_def)
      from Cons.IH [OF rest this] show ?thesis
        using False vec skip by (simp add: Let_def)
    qed
  qed
qed

lemma search_loop_inv:
  "wf_graph g \<Longrightarrow> 1 \<le> ef \<Longrightarrow> search_inv g st \<Longrightarrow>
     \<exists>res. search_loop metric g query ef layer st = Inr res \<and> res \<noteq> [] \<and> (\<forall>r\<in>set res. known g (fst r))"
proof (induction metric g query ef layer st rule: search_loop.induct)
  case (1 metric g query ef layer visited candidates results)
  note wf = "1.prems"(1) and ef = "1.prems"(2)
  from "1.prems"(3) have R: "results \<noteq> []" and C: "\<forall>r\<in>set candidates. known g (fst r)"
    and RR: "\<forall>r\<in>set results. known g (fst r)" by (simp_all add: search_inv_def)
  show ?case
  proof (cases "candidates = []")
    case True
    then show ?thesis using R RR by (subst search_loop.simps) simp
  next
    case False
    from heappop_set [OF False] obtain current candidates' where
      pop: "heappop candidates = Inr (current, candidates')"
      "set candidates = insert current (set candidates')" by blast
    obtain furthest where f: "furthest_dist results ef = Inr furthest"
      using R by (cases "ef \<le> length results") (auto simp: furthest_dist_def)
    show ?thesis
    proof (cases "exceeds (snd current) furthest")
      case True
      then show ?thesis using False pop f R RR by (subst search_loop.simps) simp
    next
      case go: False
      have kc: "known g (fst current)" using C pop(2) by simp
      then obtain by_layer where bl: "map_of (neighbors g) (fst current) = Some by_layer"
        by (auto simp: known_def) (metis map_of_eq_None_iff not_Some_eq fst_conv image_eqI)
      then have mem: "(fst current, by_layer) \<in> set (neighbors g)" by (rule map_of_SomeD)
      have nb: "\<forall>n\<in>set (neighbors_at by_layer layer). known g n"
      proof (cases "map_of by_layer layer")
        case None
        then show ?thesis by (simp add: neighbors_at_def)
      next
        case (Some s)
        then have "(layer, s) \<in> set by_layer" by (rule map_of_SomeD)
        with wf mem have "\<forall>n\<in>set s. known g n" by (fastforce simp: wf_graph_def list_all_iff)
        with Some show ?thesis by (simp add: neighbors_at_def)
      qed
      have "search_inv g (visited, candidates', results)"
        using R C RR pop(2) by (simp add: search_inv_def)
      from visit_neighbors_inv [OF ef nb this] obtain st where
        st: "visit_neighbors metric (nodes g) query ef furthest (neighbors_at by_layer layer)
               (visited, candidates', results) = Inr st" and inv: "search_inv g st" by blast
      from "1.IH" [OF False pop(1) refl f go bl st wf ef inv]
      show ?thesis using False pop(1) f go bl st by (subst search_loop.simps) simp
    qed
  qed
qed


lemma search_layer_ok:
  assumes "wf_graph g" and "1 \<le> ef" and "known g entry"
  shows "\<exists>res. search_layer metric g query entry ef layer = Inr res \<and> res \<noteq> []
           \<and> sorted (map snd res) \<and> (\<forall>r\<in>set res. known g (fst r))"
proof -
  from assms(3) obtain vec where vec: "map_of (nodes g) entry = Some vec"
    by (auto simp: known_def) (metis map_of_eq_None_iff not_Some_eq fst_conv image_eqI)
  let ?e = "(entry, metric query vec)"
  have "heappush [] ?e \<noteq> []" using length_heappush [of "[]" ?e] by auto
  then have "search_inv g ([entry], heappush [] ?e, heappush [] ?e)"
    using assms(3) by (simp add: search_inv_def set_heappush)
  from search_loop_inv [OF assms(1,2) this] obtain res where
    res: "search_loop metric g query ef layer ([entry], heappush [] ?e, heappush [] ?e) = Inr res"
    "res \<noteq> []" "\<forall>r\<in>set res. known g (fst r)" by blast
  have "sort_key snd res \<noteq> []" using res(2) by (metis length_sort length_0_conv)
  moreover have "sorted (map snd (sort_key snd res))" by (rule sorted_sort_key)
  moreover have "\<forall>r\<in>set (sort_key snd res). known g (fst r)" using res(3) by simp
  ultimately show ?thesis using vec res(1) by (simp add: search_layer_def)
qed

lemma descend_ok:
  assumes "wf_graph g"
  shows "known g curr_id \<Longrightarrow> \<exists>c. descend metric g query curr_id ls = Inr c \<and> known g c"
proof (induction ls arbitrary: curr_id)
  case Nil
  then show ?case by simp
next
  case (Cons l ls)
  from search_layer_ok [OF assms _ Cons.prems, of 1 metric query l] obtain res where
    res: "search_layer metric g query curr_id 1 l = Inr res" "res \<noteq> []"
    "\<forall>r\<in>set res. known g (fst r)" by auto
  then obtain r rs where rr: "res = r # rs" by (cases res) auto
  with res(3) have "known g (fst r)" by simp
  from Cons.IH [OF this] show ?case using res(1) rr by simp
qed

text \<open>
  Every graph that \<open>insert\<close> builds from the empty index is such a graph (when
  \<open>ef_construction \<ge> 1\<close>): \<open>insert\<close> only lists ids that are keys of \<open>nodes\<close> and
  \<open>neighbors\<close>.
\<close>

lemma set_update_subset: "set (AList.update k v al) \<subseteq> insert (k, v) (set al)"
  by (induction al) auto

lemma keys_update: "fst ` set (AList.update k v al) = insert k (fst ` set al)"
  by (simp add: dom_update)

lemma wf_graph_iff:
  "wf_graph g \<longleftrightarrow> (\<forall>ep. entry_point g = Some ep \<longrightarrow> known g ep)
      \<and> nbrs_ok {n. known g n} (neighbors g)"
  by (auto simp: wf_graph_def nbrs_ok_def list_all_iff split: option.splits)

lemma add_neighbor_ok:
  assumes "add_neighbor nbrs a l b = Inr nbrs'" and "nbrs_ok K nbrs" and "b \<in> K"
  shows "nbrs_ok K nbrs' \<and> fst ` set nbrs' = fst ` set nbrs"
proof -
  from assms(1) obtain by_layer s where
    bl: "map_of nbrs a = Some by_layer" and s: "map_of by_layer l = Some s"
    and eq: "nbrs' = AList.update a (AList.update l (set_add s b) by_layer) nbrs"
    by (auto simp: add_neighbor_def split: option.splits)
  have mem: "(a, by_layer) \<in> set nbrs" using bl by (rule map_of_SomeD)
  have mem2: "(l, s) \<in> set by_layer" using s by (rule map_of_SomeD)
  have sK: "\<forall>n\<in>set s. n \<in> K" using assms(2) mem mem2 by (fastforce simp: nbrs_ok_def)
  have s': "\<forall>n\<in>set (set_add s b). n \<in> K" using sK assms(3) by (simp add: set_add_def)
  have bl': "\<forall>(l', s')\<in>set (AList.update l (set_add s b) by_layer). \<forall>n\<in>set s'. n \<in> K"
  proof (clarify)
    fix l' s' n assume a: "(l', s') \<in> set (AList.update l (set_add s b) by_layer)" "n \<in> set s'"
    from a(1) set_update_subset have "(l', s') = (l, set_add s b) \<or> (l', s') \<in> set by_layer" by fastforce
    then show "n \<in> K"
    proof
      assume "(l', s') = (l, set_add s b)"
      with a(2) s' show ?thesis by simp
    next
      assume "(l', s') \<in> set by_layer"
      with assms(2) mem a(2) show ?thesis by (fastforce simp: nbrs_ok_def)
    qed
  qed
  have ok: "nbrs_ok K nbrs'"
    unfolding nbrs_ok_def
  proof (clarify)
    fix a' bl2 l' s' n
    assume a: "(a', bl2) \<in> set nbrs'" "(l', s') \<in> set bl2" "n \<in> set s'"
    from a(1) eq set_update_subset
    have "(a', bl2) = (a, AList.update l (set_add s b) by_layer) \<or> (a', bl2) \<in> set nbrs" by fastforce
    then show "n \<in> K"
    proof
      assume "(a', bl2) = (a, AList.update l (set_add s b) by_layer)"
      with a(2,3) bl' show ?thesis by fastforce
    next
      assume "(a', bl2) \<in> set nbrs"
      with assms(2) a(2,3) show ?thesis by (fastforce simp: nbrs_ok_def)
    qed
  qed
  have "a \<in> fst ` set nbrs" using mem by force
  then have "fst ` set nbrs' = fst ` set nbrs" by (auto simp: eq keys_update)
  with ok show ?thesis by simp
qed

lemma connect_ok:
  "connect node_id l ns nbrs = Inr nbrs' \<Longrightarrow> nbrs_ok K nbrs \<Longrightarrow> node_id \<in> K \<Longrightarrow> \<forall>n\<in>set ns. n \<in> K \<Longrightarrow>
     nbrs_ok K nbrs' \<and> fst ` set nbrs' = fst ` set nbrs"
proof (induction ns arbitrary: nbrs)
  case Nil
  then show ?case by simp
next
  case (Cons n ns)
  from Cons.prems(1) obtain n1 n2 where
    a1: "add_neighbor nbrs node_id l n = Inr n1" and a2: "add_neighbor n1 n l node_id = Inr n2"
    and rest: "connect node_id l ns n2 = Inr nbrs'"
    by (auto split: sum.splits)
  have nK: "n \<in> K" using Cons.prems(4) by simp
  from add_neighbor_ok [OF a1 Cons.prems(2) nK]
  have ok1: "nbrs_ok K n1" and k1: "fst ` set n1 = fst ` set nbrs" by simp_all
  from add_neighbor_ok [OF a2 ok1 Cons.prems(3)]
  have ok2: "nbrs_ok K n2" and k2: "fst ` set n2 = fst ` set n1" by simp_all
  from Cons.IH [OF rest ok2 Cons.prems(3)] Cons.prems(4) k1 k2 show ?case by simp
qed

lemma greedy_scan_mem:
  "greedy_scan metric nds vector ns (c, d, ch) = Inr (c', d', ch') \<Longrightarrow> c' = c \<or> c' \<in> set ns"
proof (induction ns arbitrary: c d ch)
  case Nil
  then show ?case by simp
next
  case (Cons n ns)
  from Cons.prems obtain vec where vec: "map_of nds n = Some vec"
    by (cases "map_of nds n") auto
  show ?case
  proof (cases "metric vector vec < d")
    case True
    with Cons.prems vec
    have "greedy_scan metric nds vector ns (n, metric vector vec, True) = Inr (c', d', ch')"
      by (simp add: Let_def)
    from Cons.IH [OF this] show ?thesis by auto
  next
    case False
    with Cons.prems vec
    have "greedy_scan metric nds vector ns (c, d, ch) = Inr (c', d', ch')"
      by (simp add: Let_def)
    from Cons.IH [OF this] show ?thesis by auto
  qed
qed

lemma wf_neighbors_known:
  assumes "wf_graph g" and "map_of (neighbors g) a = Some by_layer"
  shows "\<forall>n\<in>set (neighbors_at by_layer l). known g n"
proof (cases "map_of by_layer l")
  case None
  then show ?thesis by (simp add: neighbors_at_def)
next
  case (Some s)
  then have "(l, s) \<in> set by_layer" by (rule map_of_SomeD)
  moreover have "(a, by_layer) \<in> set (neighbors g)" using assms(2) by (rule map_of_SomeD)
  ultimately have "\<forall>n\<in>set s. known g n" using assms(1) by (fastforce simp: wf_graph_def list_all_iff)
  with Some show ?thesis by (simp add: neighbors_at_def)
qed

lemma greedy_loop_known:
  "wf_graph g \<Longrightarrow> known g (fst st) \<Longrightarrow> greedy_loop metric g vector l st = Inr (c, d) \<Longrightarrow> known g c"
proof (induction metric g vector l st rule: greedy_loop.induct)
  case (1 metric g vector l curr_id curr_dist)
  from "1.prems"(3) obtain by_layer where bl: "map_of (neighbors g) curr_id = Some by_layer"
    by (subst (asm) greedy_loop.simps) (auto split: option.splits)
  from "1.prems"(3) bl obtain c1 d1 ch where
    scan: "greedy_scan metric (nodes g) vector (neighbors_at by_layer l) (curr_id, curr_dist, False)
       = Inr (c1, d1, ch)"
    by (subst (asm) greedy_loop.simps) (auto split: sum.splits)
  from greedy_scan_mem [OF scan] wf_neighbors_known [OF "1.prems"(1) bl, of l] "1.prems"(2)
  have k1: "known g c1" by auto
  show ?case
  proof (cases ch)
    case True
    with "1.prems"(3) bl scan have "greedy_loop metric g vector l (c1, d1) = Inr (c, d)"
      by (subst (asm) greedy_loop.simps) simp
    from "1.IH" [OF bl scan refl refl True "1.prems"(1) _ this] k1 show ?thesis by simp
  next
    case False
    with "1.prems"(3) bl scan have "c = c1"
      by (subst (asm) greedy_loop.simps) simp
    with k1 show ?thesis by simp
  qed
qed


lemma same_nodes_known: "same_nodes g g' \<Longrightarrow> known g' n = known g n"
  by (simp add: same_nodes_def known_def)

lemma select_neighbors_subset:
  "set (select_neighbors candidates m l) \<subseteq> fst ` set candidates"
proof -
  have "set (take m (sort_key snd candidates)) \<subseteq> set (sort_key snd candidates)"
    by (rule set_take_subset)
  then show ?thesis by (auto simp: select_neighbors_def)
qed

lemma insert_layers_wf:
  "insert_layers metric node_id vector lvl ls (g, c0, d0) = Inr g' \<Longrightarrow> wf_graph g \<Longrightarrow>
   1 \<le> ef_construction g \<Longrightarrow> known g node_id \<Longrightarrow> known g c0 \<Longrightarrow>
     wf_graph g' \<and> same_nodes g g'"
proof (induction ls arbitrary: g c0 d0)
  case Nil
  then show ?case by (simp add: same_nodes_def)
next
  case (Cons l ls)
  from Cons.prems(1) obtain c d where
    gl: "greedy_loop metric g vector l (c0, d0) = Inr (c, d)"
    by (auto split: sum.splits)
  from greedy_loop_known [OF Cons.prems(2) _ gl] Cons.prems(5) have kc: "known g c" by simp
  show ?case
  proof (cases "l \<le> lvl")
    case False
    with Cons.prems(1) gl have "insert_layers metric node_id vector lvl ls (g, c, d) = Inr g'"
      by simp
    from Cons.IH [OF this Cons.prems(2,3,4) kc] show ?thesis .
  next
    case True
    from search_layer_ok [OF Cons.prems(2,3) kc, of metric vector l] obtain cands where
      sl: "search_layer metric g vector c (ef_construction g) l = Inr cands"
      and ck: "\<forall>r\<in>set cands. known g (fst r)" by blast
    let ?sel = "select_neighbors cands (if l = 0 then M_max0 g else M g) l"
    from True Cons.prems(1) gl sl obtain nbrs where
      cn: "connect node_id l ?sel (neighbors g) = Inr nbrs"
      and rest: "insert_layers metric node_id vector lvl ls (g\<lparr>neighbors := nbrs\<rparr>, c, d) = Inr g'"
      by (auto split: sum.splits)
    let ?K = "{n. known g n}"
    have selK: "\<forall>n\<in>set ?sel. n \<in> ?K"
      using select_neighbors_subset [of cands "if l = 0 then M_max0 g else M g" l] ck by auto
    have ok: "nbrs_ok ?K (neighbors g)" using Cons.prems(2) by (simp add: wf_graph_iff)
    from connect_ok [OF cn ok _ selK] Cons.prems(4)
    have nok: "nbrs_ok ?K nbrs" and keys: "fst ` set nbrs = fst ` set (neighbors g)" by simp_all
    let ?g1 = "g\<lparr>neighbors := nbrs\<rparr>"
    have sn: "same_nodes g ?g1" using keys by (simp add: same_nodes_def)
    have kn: "known ?g1 n = known g n" for n using same_nodes_known [OF sn] .
    have Keq: "{n. known ?g1 n} = ?K" using kn by simp
    have "\<forall>ep. entry_point ?g1 = Some ep \<longrightarrow> known ?g1 ep"
      using Cons.prems(2) kn by (simp add: wf_graph_iff)
    moreover have "nbrs_ok {n. known ?g1 n} (neighbors ?g1)"
      using nok Keq by simp
    ultimately have wf1: "wf_graph ?g1" by (simp only: wf_graph_iff)
    have ef1: "1 \<le> ef_construction ?g1" using Cons.prems(3) by simp
    from Cons.IH [OF rest wf1 ef1] Cons.prems(4) kc kn
    have "wf_graph g'" and "same_nodes ?g1 g'" by simp_all
    with sn show ?thesis by (simp add: same_nodes_def)
  qed
qed

lemma init_layers_empty:
  "\<forall>(l, s)\<in>set by_layer. s = [] \<Longrightarrow>
     \<forall>(l, s)\<in>set (snd (init_layers node_id ls (lays, by_layer))). s = []"
proof (induction ls arbitrary: lays by_layer)
  case Nil
  then show ?case by simp
next
  case (Cons l ls)
  have "\<forall>(l', s)\<in>set (AList.update l [] by_layer). s = []"
    using Cons.prems set_update_subset [of l "[]" by_layer] by fastforce
  from Cons.IH [OF this] show ?case by simp
qed

lemma HNSWGraph_insert_wf:
  assumes wf: "wf_graph g" and ef: "1 \<le> ef_construction g"
    and ins: "HNSWGraph_insert metric random_level g node_id vector = Inr g2"
  shows "wf_graph g2 \<and> ef_construction g2 = ef_construction g"
proof -
  define lvl where "lvl = min random_level (ml_max g)"
  define init where "init = init_layers node_id [0..<Suc lvl] (layers g, [])"
  define g' where "g' = g\<lparr>nodes := AList.update node_id vector (nodes g), layers := fst init,
      neighbors := AList.update node_id (snd init) (neighbors g)\<rparr>"
  have mono: "known g n \<Longrightarrow> known g' n" for n
    by (auto simp: known_def g'_def keys_update)
  have kid: "known g' node_id" by (simp add: known_def g'_def keys_update)
  have empty: "\<forall>(l, s)\<in>set (snd init). s = []"
    unfolding init_def by (rule init_layers_empty) simp
  have ok: "nbrs_ok {n. known g' n} (neighbors g')"
    unfolding nbrs_ok_def
  proof (clarify)
    fix a bl l s n
    assume a: "(a, bl) \<in> set (neighbors g')" "(l, s) \<in> set bl" "n \<in> set s"
    from a(1) set_update_subset [of node_id "snd init" "neighbors g"]
    have "(a, bl) = (node_id, snd init) \<or> (a, bl) \<in> set (neighbors g)" by (auto simp: g'_def)
    then show "known g' n"
    proof
      assume "(a, bl) = (node_id, snd init)"
      with a(2,3) empty show ?thesis by fastforce
    next
      assume "(a, bl) \<in> set (neighbors g)"
      with wf a(2,3) have "known g n" by (fastforce simp: wf_graph_iff nbrs_ok_def)
      then show ?thesis by (rule mono)
    qed
  qed
  have ep: "entry_point g' = entry_point g" by (simp add: g'_def)
  have wf': "wf_graph g'"
    using wf ok mono unfolding wf_graph_iff by (simp add: ep)
  have ef': "ef_construction g' = ef_construction g" by (simp add: g'_def)
  from ins have fresh: "node_id \<notin> fst ` set (nodes g)"
    by (auto simp: HNSWGraph_insert_def split: if_splits)
  show ?thesis
  proof (cases "entry_point g")
    case None
    with ins fresh have "g2 = g'\<lparr>entry_point := Some node_id, max_layer := lvl\<rparr>"
      by (simp add: HNSWGraph_insert_def Let_def g'_def init_def lvl_def)
    moreover have "wf_graph (g'\<lparr>entry_point := Some node_id, max_layer := lvl\<rparr>)"
      using ok kid by (simp add: wf_graph_iff known_def)
    ultimately show ?thesis using ef' by simp
  next
    case (Some e)
    with ins fresh obtain ep_vec g'' where
      "map_of (nodes g') e = Some ep_vec"
      and il: "insert_layers metric node_id vector lvl (rev [0..<Suc (max_layer g')])
                 (g', e, metric vector ep_vec) = Inr g''"
      and g2: "g2 = (if lvl > max_layer g'' then g''\<lparr>max_layer := lvl, entry_point := Some node_id\<rparr> else g'')"
      by (auto simp: HNSWGraph_insert_def Let_def g'_def init_def lvl_def split: option.splits sum.splits)
    have ke: "known g' e" using wf Some mono by (simp add: wf_graph_iff)
    have "1 \<le> ef_construction g'" using ef ef' by simp
    from insert_layers_wf [OF il wf' this kid ke]
    have wf'': "wf_graph g''" and sn: "same_nodes g' g''" by simp_all
    have kid'': "known g'' node_id" using same_nodes_known [OF sn] kid by simp
    have "wf_graph (g''\<lparr>max_layer := lvl, entry_point := Some node_id\<rparr>)"
      using wf'' kid'' by (simp add: wf_graph_iff known_def)
    with wf'' g2 sn ef' show ?thesis by (simp add: same_nodes_def)
  qed
qed

lemma insert_all_wf:
  "insert_all metric g inserts = Inr g' \<Longrightarrow> wf_graph g \<Longrightarrow> 1 \<le> ef_construction g \<Longrightarrow> wf_graph g'"
proof (induction inserts arbitrary: g)
  case Nil
  then show ?case by simp
next
  case (Cons x xs)
  obtain node_id vector random_level where x: "x = (node_id, vector, random_level)"
    by (cases x) auto
  from Cons.prems(1) x obtain g1 where
    i1: "HNSWGraph_insert metric random_level g node_id vector = Inr g1"
    and rest: "insert_all metric g1 xs = Inr g'"
    by (auto split: sum.splits)
  from HNSWGraph_insert_wf [OF Cons.prems(2,3) i1]
  have "wf_graph g1" "1 \<le> ef_construction g1" using Cons.prems(3) by simp_all
  from Cons.IH [OF rest this] show ?case .
qed

lemma wf_graph_init: "wf_graph (HNSWGraph_init d m efc mlmax)"
  by (simp add: wf_graph_def HNSWGraph_init_def)

text \<open>
  C5. On a graph in which the entry point and all listed neighbours are known nodes
  (\<open>wf_graph\<close>; by \<open>insert_all_wf\<close> and \<open>wf_graph_init\<close> every graph grown by
  inserts with \<open>ef_construction \<ge> 1\<close> is one), and for every metric, every query and
  every \<open>k \<ge> 1\<close>, \<open>search\<close> returns (it raises nothing, and its loops end) at most
  \<open>k\<close> pairs in ascending order of distance; on the empty index it returns the empty
  list.
\<close>

theorem search_result_shape:
  assumes "wf_graph g" and "1 \<le> k"
  shows "(\<exists>res. HNSWGraph_search metric g query k = Inr res \<and> length res \<le> k \<and> sorted (map snd res))
         \<and> HNSWGraph_search metric (HNSWGraph_init d m efc mlmax) query k = Inr []"
proof -
  have empty: "HNSWGraph_search metric (HNSWGraph_init d m efc mlmax) query k = Inr []"
    by (simp add: HNSWGraph_search_def HNSWGraph_init_def)
  have "\<exists>res. HNSWGraph_search metric g query k = Inr res \<and> length res \<le> k \<and> sorted (map snd res)"
  proof (cases "entry_point g")
    case None
    then show ?thesis by (simp add: HNSWGraph_search_def)
  next
    case (Some ep)
    show ?thesis
    proof (cases "ep = []")
      case True
      with Some show ?thesis by (simp add: HNSWGraph_search_def)
    next
      case False
      have "known g ep" using assms(1) Some by (simp add: wf_graph_def)
      from descend_ok [OF assms(1) this] obtain c where
        c: "descend metric g query ep (rev [1..<Suc (max_layer g)]) = Inr c" "known g c" by blast
      from search_layer_ok [OF assms c(2)] obtain res where
        res: "search_layer metric g query c k 0 = Inr res" "sorted (map snd res)" by blast
      have "sorted (take k (map snd res))"
        using res(2) by (rule sorted_wrt_take)
      then have "sorted (map snd (take k res))"
        by (simp only: take_map)
      then show ?thesis using Some False c(1) res(1) by (simp add: HNSWGraph_search_def)
    qed
  qed
  with empty show ?thesis by simp
qed

text \<open>
  Four one-dimensional vectors inserted with the levels 1, 0, 2, 1 under the Manhattan
  distance, then the query \<open>[12]\<close> with \<open>k = 2\<close>.
\<close>

theorem search_result_shape_witness:
  "insert_all manhattan_distance (HNSWGraph_init 1 1 200 16)
     [(''a'', [0::int], 1), (''b'', [10], 0), (''c'', [20], 2), (''d'', [-1], 1)]
   = Inr \<lparr>dim = 1, M = 1, M_max0 = 2, ef_construction = 200, ml_max = 16,
        nodes = [(''a'', [0]), (''b'', [10]), (''c'', [20]), (''d'', [- 1])],
        layers = [(0, [''a'', ''b'', ''c'', ''d'']), (1, [''a'', ''c'', ''d'']), (2, [''c''])],
        neighbors =
          [(''a'', [(0, [''b'', ''c'', ''d'']), (1, [''c'', ''d''])]),
           (''b'', [(0, [''a'', ''c'', ''d''])]),
           (''c'', [(0, [''b'', ''a'']), (1, [''a'']), (2, [])]),
           (''d'', [(0, [''a'', ''b'']), (1, [''a''])])],
        entry_point = Some ''c'', max_layer = 2\<rparr>
   \<and> wf_graph \<lparr>dim = 1, M = 1, M_max0 = 2, ef_construction = 200, ml_max = 16,
        nodes = [(''a'', [0::int]), (''b'', [10]), (''c'', [20]), (''d'', [- 1])],
        layers = [(0, [''a'', ''b'', ''c'', ''d'']), (1, [''a'', ''c'', ''d'']), (2, [''c''])],
        neighbors =
          [(''a'', [(0, [''b'', ''c'', ''d'']), (1, [''c'', ''d''])]),
           (''b'', [(0, [''a'', ''c'', ''d''])]),
           (''c'', [(0, [''b'', ''a'']), (1, [''a'']), (2, [])]),
           (''d'', [(0, [''a'', ''b'']), (1, [''a''])])],
        entry_point = Some ''c'', max_layer = 2\<rparr>
   \<and> (1::nat) \<le> 2
   \<and> HNSWGraph_search manhattan_distance \<lparr>dim = 1, M = 1, M_max0 = 2, ef_construction = 200, ml_max = 16,
        nodes = [(''a'', [0::int]), (''b'', [10]), (''c'', [20]), (''d'', [- 1])],
        layers = [(0, [''a'', ''b'', ''c'', ''d'']), (1, [''a'', ''c'', ''d'']), (2, [''c''])],
        neighbors =
          [(''a'', [(0, [''b'', ''c'', ''d'']), (1, [''c'', ''d''])]),
           (''b'', [(0, [''a'', ''c'', ''d''])]),
           (''c'', [(0, [''b'', ''a'']), (1, [''a'']), (2, [])]),
           (''d'', [(0, [''a'', ''b'']), (1, [''a''])])],
        entry_point = Some ''c'', max_layer = 2\<rparr> [12] 2 = Inr [(''c'', 8), (''a'', 12)]
   \<and> length [(''c'', 8::int), (''a'', 12)] \<le> 2 \<and> sorted (map snd [(''c'', 8::int), (''a'', 12)])"
proof -
  let ?g = "\<lparr>dim = 1, M = 1, M_max0 = 2, ef_construction = 200, ml_max = 16,
        nodes = [(''a'', [0::int]), (''b'', [10]), (''c'', [20]), (''d'', [- 1])],
        layers = [(0, [''a'', ''b'', ''c'', ''d'']), (1, [''a'', ''c'', ''d'']), (2, [''c''])],
        neighbors =
          [(''a'', [(0, [''b'', ''c'', ''d'']), (1, [''c'', ''d''])]),
           (''b'', [(0, [''a'', ''c'', ''d''])]),
           (''c'', [(0, [''b'', ''a'']), (1, [''a'']), (2, [])]),
           (''d'', [(0, [''a'', ''b'']), (1, [''a''])])],
        entry_point = Some ''c'', max_layer = 2\<rparr>"
  have built: "insert_all manhattan_distance (HNSWGraph_init 1 1 200 16)
     [(''a'', [0::int], 1), (''b'', [10], 0), (''c'', [20], 2), (''d'', [-1], 1)] = Inr ?g"
    by code_simp
  have wf: "wf_graph ?g"
    using insert_all_wf [OF built wf_graph_init] by (simp add: HNSWGraph_init_def)
  have k: "(1::nat) \<le> 2" by simp
  have run: "HNSWGraph_search manhattan_distance ?g [12] 2 = Inr [(''c'', 8), (''a'', 12)]"
    by code_simp
  from search_result_shape [OF wf k, of manhattan_distance "[12]"] run
  have "length [(''c'', 8::int), (''a'', 12)] \<le> 2 \<and> sorted (map snd [(''c'', 8::int), (''a'', 12)])"
    by auto
  with built wf k run show ?thesis by blast
qed

section \<open>Growing the graph\<close>

text \<open>
  C7. With \<open>M = 1\<close>, so \<open>M_max0 = 2\<close>, the vectors \<open>[0]\<close>, \<open>[10]\<close>, \<open>[20]\<close> and
  \<open>[-1]\<close> are inserted as \<open>a\<close>, \<open>b\<close>, \<open>c\<close>, \<open>d\<close>, all with level 0. Each insert
  links the new node with its two nearest nodes and adds the new node to their neighbour
  sets without pruning them: after the fourth insert \<open>a\<close> (and \<open>b\<close>) has three
  neighbours on layer 0, more than \<open>M_max0\<close>.
\<close>

theorem insert_exceeds_degree_bound:
  "insert_all manhattan_distance (HNSWGraph_init 1 1 200 16)
     [(''a'', [0::int], 0), (''b'', [10], 0), (''c'', [20], 0), (''d'', [-1], 0)]
   = Inr \<lparr>dim = 1, M = 1, M_max0 = 2, ef_construction = 200, ml_max = 16,
        nodes = [(''a'', [0]), (''b'', [10]), (''c'', [20]), (''d'', [- 1])],
        layers = [(0, [''a'', ''b'', ''c'', ''d''])],
        neighbors =
          [(''a'', [(0, [''b'', ''c'', ''d''])]),
           (''b'', [(0, [''a'', ''c'', ''d''])]),
           (''c'', [(0, [''b'', ''a''])]), (''d'', [(0, [''a'', ''b''])])],
        entry_point = Some ''a'', max_layer = 0\<rparr>
   \<and> M_max0 (HNSWGraph_init 1 1 200 16 :: int list HNSWGraph) < length [''b'', ''c'', ''d'']"
  by code_simp

end
